theory Spec2Isabelle
  imports Main "HOL-Library.Multiset" "HOL-Library.Product_Lexorder" "HOL-Library.Option_ord"
begin

section \<open>Data model of the troubleshooting view\<close>

text \<open>
  The types of \<^verbatim>\<open>ui/src/types/api.ts\<close> and of the troubleshoot modal
  (\<^verbatim>\<open>src/unnamed/part_005\<close>, from line 400 on). A TypeScript \<^verbatim>\<open>string | null\<close>
  (or an optional field) is a \<open>string option\<close>. Field names are the source's; where two
  types of the source share a field name, or the name is a constant of HOL, the later
  record prefixes it (\<open>ev_\<close> for a flow event, \<open>ep_\<close> for an endpoint, \<open>pv_\<close> for a
  provider, \<open>m_\<close> for a group member (whose \<^verbatim>\<open>record\<close> is \<open>m_record\<close>), \<open>g_\<close> for a group, \<open>ed_\<close> for the link editor).
  Fields of the source that the modal never reads (a provider's status, configuration
  and so on) are left out.
\<close>

record ProviderEventRecord =
  orbit_event_id :: "string option"
  provider_event_id :: string
  provider_id :: string
  provider_name :: string
  title :: string
  start :: "string option"
  end_at :: "string option"
  last_updated :: "string option"
  provider_last_seen :: "string option"
  tombstoned :: bool

record SyncEventSummary =
  ev_id :: string
  ev_title :: string
  ev_start :: "string option"
  source_provider_id :: "string option"
  target_provider_id :: "string option"
  direction :: "string option"
  occurred_at :: "string option"

record SyncEndpointSummary =
  ep_provider_id :: string
  ep_provider_name :: string
  role :: string

record Provider =
  pv_id :: string
  pv_name :: string

datatype DirectionLabel = Inbound | Outbound | Unmapped

record GroupMember =
  m_key :: string
  providerId :: string
  providerName :: string
  endpoint :: "SyncEndpointSummary option"
  m_record :: ProviderEventRecord
  directionLabel :: DirectionLabel
  directionText :: string
  duplicateCount :: nat
  orbitLinkCount :: nat
  m_tombstoned :: bool

record TroubleshootGroup =
  key :: string
  orbitEventId :: "string option"
  g_title :: string
  g_start :: "string option"
  orbitOccurredAt :: "string option"
  suspectCollision :: bool
  providerCount :: nat
  latestTimestamp :: int
  members :: "GroupMember list"

text \<open>
  What the modal takes from outside: its props (\<^verbatim>\<open>providers\<close>, \<^verbatim>\<open>sync.endpoints\<close>), the
  fetched flow events, and four functions that are not code of the modal:
  \<^verbatim>\<open>formatProviderName\<close> of \<^verbatim>\<open>lib/providers\<close>, the built-in \<^verbatim>\<open>Date.parse\<close> (\<open>None\<close> is
  its \<^verbatim>\<open>NaN\<close>; a parsed date is a whole number of milliseconds, negative before 1970),
  the built-in \<^verbatim>\<open>String.prototype.localeCompare\<close>, and what a plain object inherits:
  \<^verbatim>\<open>providerLookup\<close> is built from \<^verbatim>\<open>{}\<close>, so \<^verbatim>\<open>providerLookup[k]?.name\<close> for a key \<open>k\<close>
  that is not a property of its own is the \<^verbatim>\<open>name\<close> of the property the object inherits
  under \<open>k\<close> (with the standard prototype, \<^verbatim>\<open>Object\<close> for \<^verbatim>\<open>constructor\<close> and
  \<^verbatim>\<open>toString\<close> for \<^verbatim>\<open>toString\<close>); \<open>inheritedName k\<close> is that name, \<open>None\<close> where the
  object inherits nothing under \<open>k\<close> or what it inherits has no \<^verbatim>\<open>name\<close>.
\<close>

record Env =
  formatProviderName :: "string \<Rightarrow> string"
  Date_parse :: "string \<Rightarrow> int option"
  localeCompare :: "string \<Rightarrow> string \<Rightarrow> int"
  inheritedName :: "string \<Rightarrow> string option"
  providers :: "Provider list"
  endpoints :: "SyncEndpointSummary list"
  flowEvents :: "SyncEventSummary list"

section \<open>JavaScript primitives\<close>

text \<open>Truthiness of a \<^verbatim>\<open>string | null\<close>: \<^verbatim>\<open>null\<close> and the empty string are falsy.\<close>

definition truthy :: "string option \<Rightarrow> bool" where
  "truthy v = (case v of None \<Rightarrow> False | Some s \<Rightarrow> s \<noteq> [])"

text \<open>\<^verbatim>\<open>a || b\<close> on strings.\<close>

definition or_else :: "string \<Rightarrow> string \<Rightarrow> string" where
  "or_else a b = (if a = [] then b else a)"

text \<open>
  \<^verbatim>\<open>Array.prototype.sort(cmp)\<close>. ECMAScript (2019 on) requires the sort to be stable, and
  for a consistent comparator every stable sort returns the same array; the model is
  the stable insertion sort: an element moves behind exactly those elements that the
  comparator puts strictly before it.
\<close>

fun insert_by :: "('a \<Rightarrow> 'a \<Rightarrow> int) \<Rightarrow> 'a \<Rightarrow> 'a list \<Rightarrow> 'a list" where
  "insert_by cmp x [] = [x]"
| "insert_by cmp x (y # ys) = (if cmp x y \<le> 0 then x # y # ys else y # insert_by cmp x ys)"

definition array_sort :: "('a \<Rightarrow> 'a \<Rightarrow> int) \<Rightarrow> 'a list \<Rightarrow> 'a list" where
  "array_sort cmp xs = foldr (insert_by cmp) xs []"

section \<open>Lookup tables (useMemo blocks)\<close>

text \<open>
  Later entries overwrite earlier ones, as \<^verbatim>\<open>map[id] = ...\<close> and \<^verbatim>\<open>map.set\<close> do.
  \<open>providerLookup\<close> holds the properties of its own that the plain object gets: the
  assignment \<^verbatim>\<open>map["__proto__"] = provider\<close> creates none (it replaces the prototype, so
  its effect is part of \<open>inheritedName\<close>). \<open>providerLookupName\<close> is the expression
  \<^verbatim>\<open>providerLookup[k]?.name\<close>.
\<close>

definition providerLookup :: "Env \<Rightarrow> string \<rightharpoonup> Provider" where
  "providerLookup env =
     fold (\<lambda>p m. if pv_id p = ''__proto__'' then m else m(pv_id p \<mapsto> p)) (providers env)
          Map.empty"

definition providerLookupName :: "Env \<Rightarrow> string \<Rightarrow> string option" where
  "providerLookupName env k =
     (case providerLookup env k of Some p \<Rightarrow> Some (pv_name p) | None \<Rightarrow> inheritedName env k)"

definition endpointsByProvider :: "Env \<Rightarrow> string \<rightharpoonup> SyncEndpointSummary" where
  "endpointsByProvider env = fold (\<lambda>e m. m(ep_provider_id e \<mapsto> e)) (endpoints env) Map.empty"

definition flowByOrbit :: "Env \<Rightarrow> string \<rightharpoonup> SyncEventSummary" where
  "flowByOrbit env = fold (\<lambda>e m. m(ev_id e \<mapsto> e)) (flowEvents env) Map.empty"

text \<open>\<^verbatim>\<open>providerEventCounts\<close>: one counter per key \<^verbatim>\<open>`${providerId}::${provider_event_id}`\<close>.\<close>

definition countKey :: "string \<Rightarrow> ProviderEventRecord \<Rightarrow> string" where
  "countKey pid r = pid @ ''::'' @ provider_event_id r"

definition providerEventCounts :: "(string \<times> ProviderEventRecord) list \<Rightarrow> string \<rightharpoonup> nat" where
  "providerEventCounts allRecords =
     fold (\<lambda>(pid, r) counts.
             counts(countKey pid r \<mapsto> (case counts (countKey pid r) of None \<Rightarrow> 0 | Some n \<Rightarrow> n) + 1))
          allRecords Map.empty"

text \<open>
  \<^verbatim>\<open>orbitMembershipCounts\<close>: per canonical id the number of distinct provider ids; records
  whose \<^verbatim>\<open>orbit_event_id\<close> is falsy are skipped.
\<close>

definition orbitMembership :: "(string \<times> ProviderEventRecord) list \<Rightarrow> string \<rightharpoonup> string set" where
  "orbitMembership allRecords =
     fold (\<lambda>(pid, r) m.
             (case orbit_event_id r of
                None \<Rightarrow> m
              | Some c \<Rightarrow>
                  if c = [] then m
                  else m(c \<mapsto> insert pid (case m c of None \<Rightarrow> {} | Some s \<Rightarrow> s))))
          allRecords Map.empty"

definition orbitMembershipCounts :: "(string \<times> ProviderEventRecord) list \<Rightarrow> string \<rightharpoonup> nat" where
  "orbitMembershipCounts allRecords = map_option card \<circ> orbitMembership allRecords"

section \<open>Timestamps\<close>

definition parseTimestamp :: "Env \<Rightarrow> string option \<Rightarrow> int" where
  "parseTimestamp env v =
     (case v of
        None \<Rightarrow> 0
      | Some s \<Rightarrow> if s = [] then 0 else (case Date_parse env s of None \<Rightarrow> 0 | Some t \<Rightarrow> t))"

section \<open>The group computation\<close>

text \<open>
  \<^verbatim>\<open>const flow = record.orbit_event_id ? flowByOrbit.get(record.orbit_event_id) : undefined\<close>
\<close>

definition flowFor :: "Env \<Rightarrow> ProviderEventRecord \<Rightarrow> SyncEventSummary option" where
  "flowFor env r =
     (case orbit_event_id r of
        None \<Rightarrow> None
      | Some c \<Rightarrow> if c = [] then None else flowByOrbit env c)"

text \<open>\<^verbatim>\<open>record.orbit_event_id ?? `unlinked:${providerId}:${record.provider_event_id}`\<close>\<close>

definition groupKey :: "string \<Rightarrow> ProviderEventRecord \<Rightarrow> string" where
  "groupKey pid r =
     (case orbit_event_id r of
        Some c \<Rightarrow> c
      | None \<Rightarrow> ''unlinked:'' @ pid @ '':'' @ provider_event_id r)"

text \<open>
  \<^verbatim>\<open>Math.max(parseTimestamp(record.last_updated), parseTimestamp(record.start),
  parseTimestamp(flow?.occurred_at))\<close>
\<close>

definition recordActivity :: "Env \<Rightarrow> ProviderEventRecord \<Rightarrow> int" where
  "recordActivity env r =
     max (parseTimestamp env (last_updated r))
       (max (parseTimestamp env (start r))
            (parseTimestamp env (Option.bind (flowFor env r) occurred_at)))"

text \<open>
  The name shown for a counterpart provider:
  \<^verbatim>\<open>formatProviderName(ep?.provider_name ?? providerLookup[id]?.name ?? id) || id\<close>
\<close>

definition counterpartNameOf :: "Env \<Rightarrow> string \<Rightarrow> string" where
  "counterpartNameOf env pid =
     or_else
       (formatProviderName env
          (case endpointsByProvider env pid of
             Some ep \<Rightarrow> ep_provider_name ep
           | None \<Rightarrow> (case providerLookupName env pid of Some n \<Rightarrow> n | None \<Rightarrow> pid)))
       pid"

text \<open>The direction block (lines 700 to 720): label and \<^verbatim>\<open>counterpartName\<close>.\<close>

definition resolveDirection ::
  "Env \<Rightarrow> string \<Rightarrow> SyncEventSummary option \<Rightarrow> DirectionLabel \<times> string option" where
  "resolveDirection env pid flow =
     (case flow of
        None \<Rightarrow> (Unmapped, None)
      | Some f \<Rightarrow>
          if Some pid = source_provider_id f then
            (Outbound,
             if truthy (target_provider_id f)
             then Some (counterpartNameOf env (the (target_provider_id f))) else None)
          else if Some pid = target_provider_id f then
            (Inbound,
             if truthy (source_provider_id f)
             then Some (counterpartNameOf env (the (source_provider_id f))) else None)
          else (Unmapped, None))"

text \<open>The arrows of \<^verbatim>\<open>directionText\<close> are the UTF-8 bytes of U+2192 and U+2190.\<close>

definition directionTextOf :: "DirectionLabel \<times> string option \<Rightarrow> string" where
  "directionTextOf d =
     (case d of
        (Unmapped, _) \<Rightarrow> ''Unmapped''
      | (Outbound, c) \<Rightarrow>
          if truthy c then ''Outbound '' @ [CHR 0xE2, CHR 0x86, CHR 0x92] @ '' '' @ the c
          else ''Outbound''
      | (Inbound, c) \<Rightarrow>
          if truthy c then ''Inbound '' @ [CHR 0xE2, CHR 0x86, CHR 0x90] @ '' '' @ the c
          else ''Inbound'')"

text \<open>The object pushed onto \<^verbatim>\<open>group.members\<close> for one fetched record.\<close>

definition buildMember ::
  "Env \<Rightarrow> (string \<times> ProviderEventRecord) list \<Rightarrow> string \<Rightarrow> ProviderEventRecord \<Rightarrow> GroupMember" where
  "buildMember env allRecords pid r =
     \<lparr> m_key = pid @ ''-'' @ provider_event_id r @ ''-'' @
               (case orbit_event_id r of Some c \<Rightarrow> c | None \<Rightarrow> ''unlinked''),
       providerId = pid,
       providerName =
         or_else
           (formatProviderName env
              (case providerLookupName env pid of
                 Some n \<Rightarrow> n
               | None \<Rightarrow> (case endpointsByProvider env pid of
                             Some ep \<Rightarrow> ep_provider_name ep | None \<Rightarrow> pid)))
           pid,
       endpoint = endpointsByProvider env pid,
       m_record = r,
       directionLabel = fst (resolveDirection env pid (flowFor env r)),
       directionText = directionTextOf (resolveDirection env pid (flowFor env r)),
       duplicateCount =
         (case providerEventCounts allRecords (countKey pid r) of None \<Rightarrow> 0 | Some n \<Rightarrow> n),
       orbitLinkCount =
         (if truthy (orbit_event_id r)
          then (case orbitMembershipCounts allRecords (the (orbit_event_id r)) of
                  None \<Rightarrow> 0 | Some n \<Rightarrow> n)
          else 0),
       m_tombstoned = tombstoned r \<rparr>"

text \<open>
  The working \<^verbatim>\<open>Map<string, WorkingGroup>\<close> is the list of its values in insertion order
  (the order \<^verbatim>\<open>map.values()\<close> yields). \<open>upsertGroup\<close> is \<^verbatim>\<open>map.get(groupKey)\<close> followed
  by the update of the group found, or by \<^verbatim>\<open>map.set\<close> of a new group at the end.
\<close>

fun upsertGroup ::
  "string \<Rightarrow> TroubleshootGroup \<Rightarrow> (TroubleshootGroup \<Rightarrow> TroubleshootGroup) \<Rightarrow>
   TroubleshootGroup list \<Rightarrow> TroubleshootGroup list" where
  "upsertGroup k fresh upd [] = [fresh]"
| "upsertGroup k fresh upd (g # gs) =
     (if key g = k then upd g # gs else g # upsertGroup k fresh upd gs)"

text \<open>One iteration of \<^verbatim>\<open>allRecords.forEach\<close> (lines 665 to 753).\<close>

definition addRecord ::
  "Env \<Rightarrow> (string \<times> ProviderEventRecord) list \<Rightarrow> string \<times> ProviderEventRecord \<Rightarrow>
   TroubleshootGroup list \<Rightarrow> TroubleshootGroup list" where
  "addRecord env allRecords pr gs =
     (case pr of (pid, r) \<Rightarrow>
        upsertGroup (groupKey pid r)
          \<lparr> key = groupKey pid r,
            orbitEventId = orbit_event_id r,
            g_title = title r,
            g_start = start r,
            orbitOccurredAt = Option.bind (flowFor env r) occurred_at,
            suspectCollision = False,
            providerCount = 0,
            latestTimestamp = recordActivity env r,
            members = [buildMember env allRecords pid r] \<rparr>
          (\<lambda>g. g\<lparr> latestTimestamp := max (latestTimestamp g) (recordActivity env r),
                  members := members g @ [buildMember env allRecords pid r] \<rparr>)
          gs)"

definition workingGroups ::
  "Env \<Rightarrow> (string \<times> ProviderEventRecord) list \<Rightarrow> TroubleshootGroup list" where
  "workingGroups env allRecords = fold (addRecord env allRecords) allRecords []"

text \<open>The \<^verbatim>\<open>.map((group) => ...)\<close> of lines 755 to 770.\<close>

definition finishGroup :: "Env \<Rightarrow> TroubleshootGroup \<Rightarrow> TroubleshootGroup" where
  "finishGroup env g =
     (let ms = array_sort (\<lambda>a b. localeCompare env (providerName a) (providerName b)) (members g)
      in g\<lparr> suspectCollision := (length ms > 1 \<or> (\<exists>m \<in> set ms. duplicateCount m > 1)),
             providerCount := card (set (map providerId ms)),
             members := ms \<rparr>)"

definition finishedGroups ::
  "Env \<Rightarrow> (string \<times> ProviderEventRecord) list \<Rightarrow> TroubleshootGroup list" where
  "finishedGroups env allRecords = map (finishGroup env) (workingGroups env allRecords)"

text \<open>The comparator of the final sort (lines 771 to 776).\<close>

definition compareGroups :: "TroubleshootGroup \<Rightarrow> TroubleshootGroup \<Rightarrow> int" where
  "compareGroups a b =
     (if suspectCollision a \<noteq> suspectCollision b
      then (if suspectCollision a then - 1 else 1)
      else latestTimestamp b - latestTimestamp a)"

definition groups :: "Env \<Rightarrow> (string \<times> ProviderEventRecord) list \<Rightarrow> TroubleshootGroup list" where
  "groups env allRecords = array_sort compareGroups (finishedGroups env allRecords)"

section \<open>Fetching the provider events\<close>

text \<open>
  A rejected promise carries the thrown value: the handlers read
  \<^verbatim>\<open>err instanceof Error ? err.message : "<fallback>"\<close>. A settled request is \<open>Inl\<close> of the
  thrown value or \<open>Inr\<close> of the response.
\<close>

datatype Thrown = ErrorObject string | OtherValue

definition messageOf :: "string \<Rightarrow> Thrown \<Rightarrow> string" where
  "messageOf fallback err = (case err of ErrorObject msg \<Rightarrow> msg | OtherValue \<Rightarrow> fallback)"

record ProviderPanelState =
  data :: "ProviderEventRecord list"
  loading :: bool
  error :: "string option"

text \<open>\<^verbatim>\<open>prev[id]?.data ?? []\<close>\<close>

definition priorData :: "(string \<rightharpoonup> ProviderPanelState) \<Rightarrow> string \<Rightarrow> ProviderEventRecord list" where
  "priorData prev pid = (case prev pid of None \<Rightarrow> [] | Some panel \<Rightarrow> data panel)"

text \<open>The update that the effect makes for each provider id before it starts \<^verbatim>\<open>load\<close>.\<close>

definition markLoading ::
  "string \<Rightarrow> (string \<rightharpoonup> ProviderPanelState) \<Rightarrow> (string \<rightharpoonup> ProviderPanelState)" where
  "markLoading pid prev = prev(pid \<mapsto> \<lparr> data = priorData prev pid, loading = True, error = None \<rparr>)"

text \<open>
  The continuation of one provider's fetch inside \<^verbatim>\<open>load\<close> (lines 569 to 601): the
  \<^verbatim>\<open>try\<close> branch for a response, the \<^verbatim>\<open>catch\<close> branch for a thrown value; both do nothing
  once the effect has been cleaned up (\<^verbatim>\<open>cancelled\<close>).
\<close>

definition providerFetchSettled ::
  "bool \<Rightarrow> string \<Rightarrow> Thrown + ProviderEventRecord list \<Rightarrow>
   (string \<rightharpoonup> ProviderPanelState) \<Rightarrow> (string \<rightharpoonup> ProviderPanelState)" where
  "providerFetchSettled cancelled pid result prev =
     (if cancelled then prev
      else (case result of
              Inr events \<Rightarrow> prev(pid \<mapsto> \<lparr> data = events, loading = False, error = None \<rparr>)
            | Inl err \<Rightarrow>
                prev(pid \<mapsto> \<lparr> data = priorData prev pid, loading = False,
                               error = Some (messageOf ''Failed to load provider events'' err) \<rparr>)))"

text \<open>
  One run of the effect (lines 545 to 611) that is not superseded: every provider id is
  marked as loading, the fetches start together, and their continuations run in the
  order \<open>settleOrder\<close> in which the requests settle; \<open>results\<close> gives each provider's
  outcome.
\<close>

definition refreshProviderEvents ::
  "string list \<Rightarrow> string list \<Rightarrow> (string \<Rightarrow> Thrown + ProviderEventRecord list) \<Rightarrow>
   (string \<rightharpoonup> ProviderPanelState) \<Rightarrow> (string \<rightharpoonup> ProviderPanelState)" where
  "refreshProviderEvents providerIds settleOrder results prev =
     fold (\<lambda>pid. providerFetchSettled False pid (results pid)) settleOrder
          (fold markLoading providerIds prev)"

text \<open>\<^verbatim>\<open>allRecords\<close> (lines 626 to 635) and \<^verbatim>\<open>providerErrors\<close> (lines 799 to 805).\<close>

definition allRecords ::
  "string list \<Rightarrow> (string \<rightharpoonup> ProviderPanelState) \<Rightarrow> (string \<times> ProviderEventRecord) list" where
  "allRecords providerIds providerEvents =
     concat (map (\<lambda>pid. case providerEvents pid of
                           None \<Rightarrow> []
                         | Some panel \<Rightarrow> map (\<lambda>r. (pid, r)) (data panel))
                 providerIds)"

definition providerErrors :: "string list \<Rightarrow> (string \<rightharpoonup> ProviderPanelState) \<Rightarrow> string list" where
  "providerErrors providerIds providerEvents =
     map the (filter truthy (map (\<lambda>pid. Option.bind (providerEvents pid) error) providerIds))"

section \<open>Link and unlink\<close>

text \<open>
  The state hooks that the corrective actions read and write, and the log of the
  requests handed to the API client (\<^verbatim>\<open>client.linkProviderEvent\<close>,
  \<^verbatim>\<open>client.unlinkProviderEvent\<close>), each with the sync id and its arguments.
\<close>

datatype ActionType = Link | Unlink

datatype ApiCall =
  LinkProviderEventCall string string string string
| UnlinkProviderEventCall string string string

record LinkEditorState =
  ed_providerId :: string
  ed_providerEventId :: string
  currentOrbitId :: "string option"

record ModalState =
  refreshTick :: nat
  actionError :: "string option"
  actionState :: "(ActionType \<times> string) option"
  linkEditor :: "LinkEditorState option"
  linkTargetOrbit :: string
  requests :: "ApiCall list"

text \<open>\<^verbatim>\<open>`${providerId}-${providerEventId}`\<close>\<close>

definition actionKeyOf :: "string \<Rightarrow> string \<Rightarrow> string" where
  "actionKeyOf pid peid = pid @ ''-'' @ peid"

definition isActionLoading :: "ActionType \<Rightarrow> string \<Rightarrow> ModalState \<Rightarrow> bool" where
  "isActionLoading ty k st =
     (case actionState st of None \<Rightarrow> False | Some (ty', k') \<Rightarrow> ty' = ty \<and> k' = k)"

text \<open>\<^verbatim>\<open>shortenId\<close> with its default \<^verbatim>\<open>visible = 6\<close>, and \<^verbatim>\<open>orbitOptions\<close> (lines 784 to 795).\<close>

definition shortenId :: "string \<Rightarrow> string" where
  "shortenId v =
     (if length v \<le> 6 * 2 + 3 then v else take 6 v @ ''...'' @ drop (length v - 6) v)"

definition orbitOptions :: "TroubleshootGroup list \<Rightarrow> (string \<times> string) list" where
  "orbitOptions gs =
     fold (\<lambda>g seen.
             if truthy (orbitEventId g) \<and> the (orbitEventId g) \<notin> fst ` set seen
             then seen @ [(the (orbitEventId g),
                           if g_title g \<noteq> [] then g_title g
                           else ''Orbit '' @ shortenId (the (orbitEventId g)))]
             else seen)
          gs []"

definition startLink ::
  "(string \<times> string) list \<Rightarrow> string \<Rightarrow> string \<Rightarrow> string option \<Rightarrow> ModalState \<Rightarrow> ModalState" where
  "startLink options0 pid peid cur st =
     (let options = filter (\<lambda>option. Some (fst option) \<noteq> cur) options0
      in if options = []
         then st\<lparr> actionError := Some ''No other Orbit events available to link.'' \<rparr>
         else st\<lparr> actionError := None,
                  linkEditor := Some \<lparr> ed_providerId = pid, ed_providerEventId = peid,
                                       currentOrbitId = cur \<rparr>,
                  linkTargetOrbit := fst (hd options) \<rparr>)"

definition cancelLink :: "ModalState \<Rightarrow> ModalState" where
  "cancelLink st = st\<lparr> linkEditor := None, linkTargetOrbit := [] \<rparr>"

text \<open>
  An \<^verbatim>\<open>async\<close> handler is two functions: the part that runs when it is called, up to
  the \<^verbatim>\<open>await\<close> of the client's promise (it appends the request to the log), and the
  part that runs when that promise settles (\<^verbatim>\<open>try\<close> or \<^verbatim>\<open>catch\<close>, then \<^verbatim>\<open>finally\<close>).
\<close>

definition submitLink :: "string \<Rightarrow> ModalState \<Rightarrow> ModalState" where
  "submitLink syncId st =
     (case linkEditor st of
        None \<Rightarrow> st
      | Some ed \<Rightarrow>
          if linkTargetOrbit st = [] \<or> Some (linkTargetOrbit st) = currentOrbitId ed
          then st\<lparr> actionError := Some ''Select a different Orbit event to link.'' \<rparr>
          else st\<lparr> actionState :=
                     Some (Link, actionKeyOf (ed_providerId ed) (ed_providerEventId ed)),
                   actionError := None,
                   requests := requests st @
                     [LinkProviderEventCall syncId (ed_providerId ed) (ed_providerEventId ed)
                        (linkTargetOrbit st)] \<rparr>)"

definition submitLink_settled :: "Thrown + unit \<Rightarrow> ModalState \<Rightarrow> ModalState" where
  "submitLink_settled outcome st =
     (case outcome of
        Inr _ \<Rightarrow> st\<lparr> linkEditor := None, linkTargetOrbit := [],
                      refreshTick := refreshTick st + 1 \<rparr>
      | Inl err \<Rightarrow> st\<lparr> actionError := Some (messageOf ''Failed to relink provider event'' err) \<rparr>)
     \<lparr> actionState := None \<rparr>"

definition unlinkProviderEvent :: "string \<Rightarrow> string \<Rightarrow> string \<Rightarrow> ModalState \<Rightarrow> ModalState" where
  "unlinkProviderEvent syncId pid peid st =
     st\<lparr> actionState := Some (Unlink, actionKeyOf pid peid),
         actionError := None,
         requests := requests st @ [UnlinkProviderEventCall syncId pid peid] \<rparr>"

text \<open>
  The continuation tests the \<^verbatim>\<open>linkEditor\<close> of the render in which the handler was
  called; it is the argument \<open>captured\<close>.
\<close>

definition unlinkProviderEvent_settled ::
  "LinkEditorState option \<Rightarrow> string \<Rightarrow> string \<Rightarrow> Thrown + unit \<Rightarrow> ModalState \<Rightarrow> ModalState" where
  "unlinkProviderEvent_settled captured pid peid outcome st =
     (case outcome of
        Inr _ \<Rightarrow>
          (let st1 = (case captured of
                        None \<Rightarrow> st
                      | Some ed \<Rightarrow>
                          if ed_providerId ed = pid \<and> ed_providerEventId ed = peid
                          then cancelLink st else st)
           in st1\<lparr> refreshTick := refreshTick st1 + 1 \<rparr>)
      | Inl err \<Rightarrow> st\<lparr> actionError := Some (messageOf ''Failed to unlink provider event'' err) \<rparr>)
     \<lparr> actionState := None \<rparr>"



definition linkDisabled :: "(string \<times> string) list \<Rightarrow> GroupMember \<Rightarrow> ModalState \<Rightarrow> bool" where
  "linkDisabled options0 m st \<longleftrightarrow>
     filter (\<lambda>option. Some (fst option) \<noteq> orbit_event_id (m_record m)) options0 = [] \<or>
     isActionLoading Link (actionKeyOf (providerId m) (provider_event_id (m_record m))) st"

definition clickLink :: "(string \<times> string) list \<Rightarrow> GroupMember \<Rightarrow> ModalState \<Rightarrow> ModalState" where
  "clickLink options0 m st =
     (if linkDisabled options0 m st then st
      else startLink options0 (providerId m) (provider_event_id (m_record m))
             (orbit_event_id (m_record m)) st)"

definition clickSave :: "string \<Rightarrow> ModalState \<Rightarrow> ModalState" where
  "clickSave syncId st =
     (case linkEditor st of
        None \<Rightarrow> st
      | Some ed \<Rightarrow>
          if isActionLoading Link (actionKeyOf (ed_providerId ed) (ed_providerEventId ed)) st
          then st else submitLink syncId st)"

section \<open>Notions for the statements and the proofs\<close>

text \<open>The pairs \<^verbatim>\<open>{ providerId, record }\<close> that a group's members were built from.\<close>

definition memberPairs :: "TroubleshootGroup \<Rightarrow> (string \<times> ProviderEventRecord) list" where
  "memberPairs g = map (\<lambda>m. (providerId m, m_record m)) (members g)"

definition wellKeyed :: "TroubleshootGroup \<Rightarrow> bool" where
  "wellKeyed g = (\<forall>m \<in> set (members g). groupKey (providerId m) (m_record m) = key g)"

text \<open>
  The number of fetched records with a given \<open>(providerId, provider_event_id)\<close> pair, as
  the specification words \<^verbatim>\<open>duplicateCount\<close>, and the condition under which the counter
  keys of a snapshot tell its pairs apart.
\<close>

definition literalDuplicateCount ::
  "(string \<times> ProviderEventRecord) list \<Rightarrow> string \<Rightarrow> string \<Rightarrow> nat" where
  "literalDuplicateCount snapshot pid eid =
     length (filter (\<lambda>(p, r). p = pid \<and> provider_event_id r = eid) snapshot)"

definition countKeysUnambiguous :: "(string \<times> ProviderEventRecord) list \<Rightarrow> bool" where
  "countKeysUnambiguous snapshot =
     (\<forall>(p, r) \<in> set snapshot. \<forall>(p', r') \<in> set snapshot.
        countKey p r = countKey p' r' \<longrightarrow> p = p' \<and> provider_event_id r = provider_event_id r')"

text \<open>The rank that the final comparator sorts by (used in the proofs only).\<close>

definition groupRank :: "TroubleshootGroup \<Rightarrow> bool \<times> int" where
  "groupRank g = (\<not> suspectCollision g, - latestTimestamp g)"

text \<open>Invariants of a working group, used in the proofs.\<close>

definition stamped :: "Env \<Rightarrow> TroubleshootGroup \<Rightarrow> bool" where
  "stamped env g \<longleftrightarrow> members g \<noteq> [] \<and>
     latestTimestamp g = Max ((\<lambda>m. recordActivity env (m_record m)) ` set (members g))"

definition seeded :: "TroubleshootGroup \<Rightarrow> bool" where
  "seeded g = (\<exists>m \<in> set (members g). orbit_event_id (m_record m) = orbitEventId g)"

text \<open>
  The group keys of a snapshot are unambiguous when two fetched records with the same
  group key have the same canonical id and, if they have none, the same
  \<open>(providerId, provider_event_id)\<close> pair.
\<close>

definition groupKeysUnambiguous :: "(string \<times> ProviderEventRecord) list \<Rightarrow> bool" where
  "groupKeysUnambiguous snapshot =
     (\<forall>(p, r) \<in> set snapshot. \<forall>(p', r') \<in> set snapshot.
        groupKey p r = groupKey p' r' \<longrightarrow>
          orbit_event_id r = orbit_event_id r' \<and>
          (orbit_event_id r = None \<longrightarrow> p = p' \<and> provider_event_id r = provider_event_id r'))"

text \<open>
  The latest activity as the specification words it: a missing or unparseable
  timestamp is the earliest possible value. That value is \<open>None\<close>, which the order on
  \<open>int option\<close> puts below every \<open>Some t\<close>.
\<close>

definition specTimestamp :: "Env \<Rightarrow> string option \<Rightarrow> int option" where
  "specTimestamp env v = (case v of None \<Rightarrow> None | Some s \<Rightarrow> Date_parse env s)"

definition specLatestActivityAt :: "Env \<Rightarrow> TroubleshootGroup \<Rightarrow> int option" where
  "specLatestActivityAt env g =
     foldr (\<lambda>m acc.
              max (max (specTimestamp env (last_updated (m_record m)))
                       (max (specTimestamp env (start (m_record m)))
                            (specTimestamp env (Option.bind (flowFor env (m_record m)) occurred_at))))
                  acc)
           (members g) None"

text \<open>
  The canonical id that a snapshot holds for the record of a provider with a given
  event id: the record's current canonical id.
\<close>

definition recordCanonicalId ::
  "(string \<times> ProviderEventRecord) list \<Rightarrow> string \<Rightarrow> string \<Rightarrow> string option" where
  "recordCanonicalId snapshot pid peid =
     (case find (\<lambda>(p, r). p = pid \<and> provider_event_id r = peid) snapshot of
        None \<Rightarrow> None
      | Some (p, r) \<Rightarrow> orbit_event_id r)"

text \<open>The panel that a settled fetch leaves, given the data the panel held (proofs only).\<close>

definition settledPanel ::
  "Thrown + ProviderEventRecord list \<Rightarrow> ProviderEventRecord list \<Rightarrow> ProviderPanelState" where
  "settledPanel result d =
     (case result of
        Inr events \<Rightarrow> \<lparr> data = events, loading = False, error = None \<rparr>
      | Inl err \<Rightarrow> \<lparr> data = d, loading = False,
                       error = Some (messageOf ''Failed to load provider events'' err) \<rparr>)"

section \<open>A sample snapshot\<close>

text \<open>
  Two providers and one flow record from Apple to Skylight. Skylight and Apple each
  report a record linked to \<open>orbit-1\<close>, Apple reports the unlinked event \<open>evt-42\<close> twice,
  and each provider reports one more unlinked event, both last updated at the same
  moment. The sample \<^verbatim>\<open>localeCompare\<close> compares
  code units, the sample \<^verbatim>\<open>formatProviderName\<close> returns the name as it is, and the
  lookup object has the standard prototype.
\<close>

fun codeUnitCompare :: "string \<Rightarrow> string \<Rightarrow> int" where
  "codeUnitCompare [] [] = 0"
| "codeUnitCompare [] (y # ys) = - 1"
| "codeUnitCompare (x # xs) [] = 1"
| "codeUnitCompare (x # xs) (y # ys) =
     (if (of_char x :: nat) < of_char y then - 1
      else if (of_char y :: nat) < of_char x then 1 else codeUnitCompare xs ys)"

text \<open>
  The names of what an object inherits from the standard \<^verbatim>\<open>Object.prototype\<close>: its
  functions are named after their keys, except \<^verbatim>\<open>constructor\<close>, which is \<^verbatim>\<open>Object\<close>; the
  accessor \<^verbatim>\<open>__proto__\<close> yields the prototype, which has no \<^verbatim>\<open>name\<close>.
\<close>

definition objectPrototypeName :: "string \<Rightarrow> string option" where
  "objectPrototypeName k =
     (if k = ''constructor'' then Some ''Object''
      else if k \<in> set [''hasOwnProperty'', ''isPrototypeOf'', ''propertyIsEnumerable'',
                        ''toLocaleString'', ''toString'', ''valueOf'', ''__defineGetter__'',
                        ''__defineSetter__'', ''__lookupGetter__'', ''__lookupSetter__'']
      then Some k
      else None)"

definition ex_env :: Env where
  "ex_env =
     \<lparr> formatProviderName = (\<lambda>s. s),
       Date_parse = (\<lambda>s. if s = ''2024-05-01T10:00:00Z'' then Some 1714557600000
                         else if s = ''2024-05-02T10:00:00Z'' then Some 1714644000000
                         else if s = ''1960-01-01T00:00:00Z'' then Some (- 315619200000)
                         else None),
       localeCompare = codeUnitCompare,
       inheritedName = objectPrototypeName,
       providers = [\<lparr> pv_id = ''p-apple'', pv_name = ''Apple'' \<rparr>,
                    \<lparr> pv_id = ''p-sky'', pv_name = ''Skylight'' \<rparr>],
       endpoints = [\<lparr> ep_provider_id = ''p-apple'', ep_provider_name = ''Apple'',
                      role = ''primary'' \<rparr>,
                    \<lparr> ep_provider_id = ''p-sky'', ep_provider_name = ''Skylight'',
                      role = ''secondary'' \<rparr>],
       flowEvents = [\<lparr> ev_id = ''orbit-1'', ev_title = ''Dentist'', ev_start = None,
                       source_provider_id = Some ''p-apple'',
                       target_provider_id = Some ''p-sky'',
                       direction = None, occurred_at = Some ''2024-05-02T10:00:00Z'' \<rparr>] \<rparr>"

definition ex_rec ::
  "string \<Rightarrow> string option \<Rightarrow> string \<Rightarrow> string option \<Rightarrow> string option \<Rightarrow> ProviderEventRecord" where
  "ex_rec pid c e st upd =
     \<lparr> orbit_event_id = c, provider_event_id = e, provider_id = pid, provider_name = [],
       title = ''Dentist'', start = st, end_at = None, last_updated = upd,
       provider_last_seen = None, tombstoned = False \<rparr>"

definition ex_recs :: "(string \<times> ProviderEventRecord) list" where
  "ex_recs =
     [(''p-sky'', ex_rec ''p-sky'' None ''solo'' (Some ''2024-05-01T10:00:00Z'')
                   (Some ''2024-05-02T10:00:00Z'')),
      (''p-sky'', ex_rec ''p-sky'' (Some ''orbit-1'') ''s1'' (Some ''2024-05-01T10:00:00Z'') None),
      (''p-apple'', ex_rec ''p-apple'' None ''evt-42'' (Some ''2024-05-01T10:00:00Z'') None),
      (''p-apple'', ex_rec ''p-apple'' (Some ''orbit-1'') ''a1'' (Some ''2024-05-01T10:00:00Z'') None),
      (''p-apple'', ex_rec ''p-apple'' None ''evt-42'' (Some ''2024-05-01T10:00:00Z'') None),
      (''p-apple'', ex_rec ''p-apple'' None ''lone'' (Some ''2024-05-01T10:00:00Z'')
                     (Some ''2024-05-02T10:00:00Z''))]"

text \<open>
  Two linked records of two providers whose ids and event ids differ, but whose counter
  keys are both \<^verbatim>\<open>caldav::home::evt1\<close>.
\<close>

definition cx2_recs :: "(string \<times> ProviderEventRecord) list" where
  "cx2_recs =
     [(''caldav'', ex_rec ''caldav'' (Some ''orbit-1'') ''home::evt1'' None None),
      (''caldav::home'', ex_rec ''caldav::home'' (Some ''orbit-2'') ''evt1'' None None)]"

text \<open>An unlinked birthday entry whose start and last update lie before 1970.\<close>

definition cx8_recs :: "(string \<times> ProviderEventRecord) list" where
  "cx8_recs =
     [(''p-apple'', ex_rec ''p-apple'' None ''birthday'' (Some ''1960-01-01T00:00:00Z'')
                     (Some ''1960-01-01T00:00:00Z''))]"



text \<open>
  Two unlinked records of two providers with different pairs and one synthetic key,
  \<^verbatim>\<open>unlinked:caldav:home:evt1\<close>.
\<close>

definition cx10_recs :: "(string \<times> ProviderEventRecord) list" where
  "cx10_recs =
     [(''caldav'', ex_rec ''caldav'' None ''home:evt1'' None None),
      (''caldav:home'', ex_rec ''caldav:home'' None ''evt1'' None None)]"

text \<open>
  A refresh in which Apple's fetch fails and Skylight's returns one record, and a
  state of the panels in which Apple holds a record from an earlier refresh.
\<close>

definition ex_results :: "string \<Rightarrow> Thrown + ProviderEventRecord list" where
  "ex_results pid =
     (if pid = ''p-apple'' then Inl (ErrorObject ''504 Gateway Timeout'')
      else Inr [ex_rec ''p-sky'' (Some ''orbit-1'') ''s1'' (Some ''2024-05-01T10:00:00Z'') None])"

definition cx7_prev :: "string \<rightharpoonup> ProviderPanelState" where
  "cx7_prev =
     [''p-apple'' \<mapsto> \<lparr> data = [ex_rec ''p-apple'' (Some ''orbit-1'') ''a1'' None None],
                        loading = False, error = None \<rparr>]"

text \<open>
  The modal right after it has loaded, the two rows of the group of \<open>orbit-1\<close> (Apple's
  and Skylight's), and the modal with the link editor open on Apple's unlinked event:
  once with the current canonical id of a linked record as the target, once with a
  valid target, and once while the request for that target is in flight; and the
  modal with the link editor open on Apple's row of \<open>orbit-1\<close>, with another target.
\<close>

definition ex_state :: ModalState where
  "ex_state = \<lparr> refreshTick = 0, actionError = None, actionState = None, linkEditor = None,
                linkTargetOrbit = [], requests = [] \<rparr>"



definition ex_same_target :: ModalState where
  "ex_same_target =
     ex_state\<lparr> linkEditor := Some \<lparr> ed_providerId = ''p-apple'', ed_providerEventId = ''a1'',
                                     currentOrbitId = Some ''orbit-1'' \<rparr>,
               linkTargetOrbit := ''orbit-1'' \<rparr>"


definition ex_editing :: ModalState where
  "ex_editing =
     ex_state\<lparr> linkEditor := Some \<lparr> ed_providerId = ''p-apple'', ed_providerEventId = ''evt-42'',
                                     currentOrbitId = None \<rparr>,
               linkTargetOrbit := ''orbit-1'' \<rparr>"

definition ex_saving :: ModalState where
  "ex_saving = submitLink ''sync-1'' ex_editing"

text \<open>
  Two snapshots with the canonical ids \<open>orbit-1\<close> and \<open>orbit-2\<close>: in the first, Apple's
  record \<open>a1\<close> is linked to \<open>orbit-1\<close>; in the second, fetched later, to \<open>orbit-2\<close>. The
  row of \<open>a1\<close> in the first, and the modal after a click on that row's Link button.
\<close>

definition cx6_before :: "(string \<times> ProviderEventRecord) list" where
  "cx6_before =
     [(''p-apple'', ex_rec ''p-apple'' (Some ''orbit-1'') ''a1'' None None),
      (''p-sky'', ex_rec ''p-sky'' (Some ''orbit-2'') ''s2'' None None)]"

definition cx6_after :: "(string \<times> ProviderEventRecord) list" where
  "cx6_after =
     [(''p-apple'', ex_rec ''p-apple'' (Some ''orbit-2'') ''a1'' None None),
      (''p-sky'', ex_rec ''p-sky'' (Some ''orbit-2'') ''s2'' None None)]"

definition cx6_row :: GroupMember where
  "cx6_row = hd (members (hd (groups ex_env cx6_before)))"

definition cx6_editing :: ModalState where
  "cx6_editing = clickLink (orbitOptions (groups ex_env cx6_before)) cx6_row ex_state"

section \<open>The sort is a permutation\<close>

lemma mset_insert_by: "mset (insert_by cmp x ys) = add_mset x (mset ys)"
  by (induction ys) auto

lemma mset_array_sort: "mset (array_sort cmp xs) = mset xs"
  by (induction xs) (auto simp: array_sort_def mset_insert_by)

lemma set_array_sort: "set (array_sort cmp xs) = set xs"
  by (metis mset_array_sort set_mset_mset)

lemma length_array_sort: "length (array_sort cmp xs) = length xs"
  by (metis mset_array_sort size_mset)

lemma mset_concat_map_cong:
  assumes "mset xs = mset ys"
  shows "mset (concat (map f xs)) = mset (concat (map f ys))"
proof -
  have "mset (concat (map f zs)) = sum_mset (image_mset (\<lambda>z. mset (f z)) (mset zs))" for zs
    by (induction zs) simp_all
  with assms show ?thesis by simp
qed

section \<open>Invariants of the grouping loop\<close>

subsection \<open>Keys stay distinct\<close>

lemma keys_upsertGroup:
  "key fresh = k \<Longrightarrow> (\<And>g. key (upd g) = key g) \<Longrightarrow>
   map key (upsertGroup k fresh upd gs) =
     (if k \<in> set (map key gs) then map key gs else map key gs @ [k])"
  by (induction gs) auto

lemma keys_addRecord:
  "map key (addRecord env allr (pid, r) gs) =
     (if groupKey pid r \<in> set (map key gs) then map key gs else map key gs @ [groupKey pid r])"
  unfolding addRecord_def by (simp add: keys_upsertGroup)

lemma distinct_addRecord:
  "distinct (map key gs) \<Longrightarrow> distinct (map key (addRecord env allr pr gs))"
  by (cases pr) (simp add: keys_addRecord)

lemma distinct_fold_addRecord:
  "distinct (map key gs) \<Longrightarrow> distinct (map key (fold (addRecord env allr) rs gs))"
  by (induction rs arbitrary: gs) (simp_all add: distinct_addRecord)

subsection \<open>Every record becomes one member\<close>

lemma pair_buildMember [simp]:
  "providerId (buildMember env allr pid r) = pid" "m_record (buildMember env allr pid r) = r"
  by (simp_all add: buildMember_def)

lemma members_upsertGroup:
  "members fresh = [m] \<Longrightarrow> (\<And>g. members (upd g) = members g @ [m]) \<Longrightarrow>
   mset (concat (map members (upsertGroup k fresh upd gs))) =
     add_mset m (mset (concat (map members gs)))"
  by (induction gs) auto

lemma members_addRecord:
  "mset (concat (map members (addRecord env allr (pid, r) gs))) =
     add_mset (buildMember env allr pid r) (mset (concat (map members gs)))"
  unfolding addRecord_def by (simp add: members_upsertGroup)

lemma pairs_fold_addRecord:
  "mset (concat (map memberPairs (fold (addRecord env allr) rs gs))) =
     mset (concat (map memberPairs gs)) + mset rs"
proof (induction rs arbitrary: gs)
  case Nil
  show ?case by simp
next
  case (Cons pr rs)
  obtain pid r where pr: "pr = (pid, r)" by (cases pr)
  have "mset (concat (map memberPairs hs)) =
          image_mset (\<lambda>m. (providerId m, m_record m)) (mset (concat (map members hs)))" for hs
    by (induction hs) (simp_all add: memberPairs_def)
  then have "mset (concat (map memberPairs (addRecord env allr pr gs))) =
          add_mset pr (mset (concat (map memberPairs gs)))"
    by (simp add: pr members_addRecord)
  with Cons.IH [of "addRecord env allr pr gs"] show ?case by simp
qed

subsection \<open>A member's key is its group's key\<close>

lemma wellKeyed_upsertGroup:
  "list_all wellKeyed gs \<Longrightarrow> wellKeyed fresh \<Longrightarrow>
   (\<And>g. key g = k \<Longrightarrow> wellKeyed g \<Longrightarrow> wellKeyed (upd g)) \<Longrightarrow>
   list_all wellKeyed (upsertGroup k fresh upd gs)"
  by (induction gs) auto

lemma wellKeyed_addRecord:
  assumes "list_all wellKeyed gs"
  shows "list_all wellKeyed (addRecord env allr pr gs)"
proof -
  obtain pid r where pr: "pr = (pid, r)" by (cases pr)
  show ?thesis
    unfolding addRecord_def pr prod.case
    by (rule wellKeyed_upsertGroup [OF assms]) (simp_all add: wellKeyed_def)
qed

lemma wellKeyed_fold_addRecord:
  "list_all wellKeyed gs \<Longrightarrow> list_all wellKeyed (fold (addRecord env allr) rs gs)"
  by (induction rs arbitrary: gs) (simp_all add: wellKeyed_addRecord)

subsection \<open>From the working map to the sorted output\<close>

lemma key_finishGroup [simp]: "key (finishGroup env g) = key g"
  by (simp add: finishGroup_def Let_def)

lemma members_finishGroup:
  "members (finishGroup env g) =
     array_sort (\<lambda>a b. localeCompare env (providerName a) (providerName b)) (members g)"
  by (simp add: finishGroup_def Let_def)

lemma mset_memberPairs_finishGroup:
  "mset (memberPairs (finishGroup env g)) = mset (memberPairs g)"
  unfolding memberPairs_def members_finishGroup
  by (metis mset_array_sort mset_map)

lemma wellKeyed_finishGroup: "wellKeyed (finishGroup env g) = wellKeyed g"
  by (simp add: wellKeyed_def members_finishGroup set_array_sort)

lemma mset_groups: "mset (groups env recs) = mset (finishedGroups env recs)"
  by (simp add: groups_def mset_array_sort)

lemma set_groups: "set (groups env recs) = finishGroup env ` set (workingGroups env recs)"
  by (simp add: groups_def set_array_sort finishedGroups_def)

lemma distinct_keys_groups: "distinct (map key (groups env recs))"
proof -
  have "distinct (map key (workingGroups env recs))"
    by (simp add: workingGroups_def distinct_fold_addRecord)
  then have "distinct (map key (finishedGroups env recs))"
    by (simp add: finishedGroups_def comp_def)
  moreover have "mset (map key (groups env recs)) = mset (map key (finishedGroups env recs))"
    by (metis mset_groups mset_map)
  ultimately show ?thesis
    by (metis mset_eq_imp_distinct_iff)
qed

lemma pairs_groups: "mset (concat (map memberPairs (groups env recs))) = mset recs"
proof -
  have "mset (concat (map memberPairs (groups env recs))) =
        mset (concat (map memberPairs (finishedGroups env recs)))"
    by (rule mset_concat_map_cong) (rule mset_groups)
  also have "\<dots> = mset (concat (map memberPairs (workingGroups env recs)))"
    by (simp add: finishedGroups_def mset_concat comp_def mset_memberPairs_finishGroup)
  also have "\<dots> = mset recs"
    by (simp add: workingGroups_def pairs_fold_addRecord)
  finally show ?thesis .
qed

lemma wellKeyed_groups: "g \<in> set (groups env recs) \<Longrightarrow> wellKeyed g"
  using wellKeyed_fold_addRecord [of "[]" env recs recs]
  by (auto simp: set_groups workingGroups_def wellKeyed_finishGroup list_all_iff)

subsection \<open>The sample snapshot, evaluated\<close>

lemma ex_groups_summary:
  "map (\<lambda>g. (key g, orbitEventId g, suspectCollision g, providerCount g, latestTimestamp g,
             map providerId (members g), map duplicateCount (members g)))
       (groups ex_env ex_recs) =
   [(''orbit-1'', Some ''orbit-1'', True, 2, 1714644000000, [''p-apple'', ''p-sky''], [1, 1]),
    (''unlinked:p-apple:evt-42'', None, True, 1, 1714557600000, [''p-apple'', ''p-apple''], [2, 2]),
    (''unlinked:p-sky:solo'', None, False, 1, 1714644000000, [''p-sky''], [1]),
    (''unlinked:p-apple:lone'', None, False, 1, 1714644000000, [''p-apple''], [1])]"
  by code_simp

lemma ex_groups_hd:
  "hd (groups ex_env ex_recs) \<in> set (groups ex_env ex_recs)"
  "hd (members (hd (groups ex_env ex_recs))) \<in> set (members (hd (groups ex_env ex_recs)))"
  by code_simp+

subsection \<open>Every member was built from a fetched record\<close>

lemma members_fold_addRecord:
  "mset (concat (map members (fold (addRecord env allr) rs gs))) =
     mset (concat (map members gs)) + image_mset (\<lambda>(p, r). buildMember env allr p r) (mset rs)"
proof (induction rs arbitrary: gs)
  case Nil
  show ?case by simp
next
  case (Cons pr rs)
  obtain pid r where pr: "pr = (pid, r)" by (cases pr)
  show ?case by (simp add: Cons.IH pr members_addRecord)
qed

lemma set_members_finishGroup [simp]: "set (members (finishGroup env g)) = set (members g)"
  by (simp add: members_finishGroup set_array_sort)

lemma member_of_groups:
  assumes "g \<in> set (groups env recs)" "m \<in> set (members g)"
  shows "(providerId m, m_record m) \<in> set recs \<and>
         m = buildMember env recs (providerId m) (m_record m)"
proof -
  from assms obtain w where w: "w \<in> set (workingGroups env recs)" "m \<in> set (members w)"
    by (auto simp: set_groups)
  then have "m \<in> set (concat (map members (workingGroups env recs)))" by auto
  then have "m \<in># mset (concat (map members (workingGroups env recs)))" by simp
  then have "m \<in># image_mset (\<lambda>(p, r). buildMember env recs p r) (mset recs)"
    by (simp add: workingGroups_def members_fold_addRecord)
  then obtain p r where "(p, r) \<in> set recs" "m = buildMember env recs p r" by auto
  then show ?thesis by simp
qed

subsection \<open>The duplicate counters\<close>

lemma fold_count:
  "fold (\<lambda>(pid, r) counts.
           counts(countKey pid r \<mapsto> (case counts (countKey pid r) of None \<Rightarrow> 0 | Some n \<Rightarrow> n) + 1))
        rs m k =
   (if filter (\<lambda>(p, r). countKey p r = k) rs = [] then m k
    else Some ((case m k of None \<Rightarrow> 0 | Some n \<Rightarrow> n) +
               length (filter (\<lambda>(p, r). countKey p r = k) rs)))"
  by (induction rs arbitrary: m) (auto split: prod.splits)

lemma providerEventCounts_eq:
  "(case providerEventCounts recs k of None \<Rightarrow> 0 | Some n \<Rightarrow> n) =
     length (filter (\<lambda>(p, r). countKey p r = k) recs)"
  unfolding providerEventCounts_def fold_count by simp

lemma duplicateCount_buildMember:
  "duplicateCount (buildMember env recs pid r) =
     length (filter (\<lambda>(p, r'). countKey p r' = countKey pid r) recs)"
  by (simp add: buildMember_def providerEventCounts_eq)

lemma suspectCollision_finishGroup:
  "suspectCollision (finishGroup env g) \<longleftrightarrow>
     1 < length (members (finishGroup env g)) \<or>
     (\<exists>m \<in> set (members (finishGroup env g)). 1 < duplicateCount m)"
  by (simp add: finishGroup_def Let_def)

lemma literal_count_eq:
  assumes "countKeysUnambiguous recs" "(pid, r) \<in> set recs"
  shows "length (filter (\<lambda>(p, r'). countKey p r' = countKey pid r) recs) =
         literalDuplicateCount recs pid (provider_event_id r)"
proof -
  have "filter (\<lambda>(p, r'). countKey p r' = countKey pid r) recs =
        filter (\<lambda>(p, r'). p = pid \<and> provider_event_id r' = provider_event_id r) recs"
    using assms by (intro filter_cong refl) (auto simp: countKeysUnambiguous_def countKey_def)
  then show ?thesis by (simp add: literalDuplicateCount_def)
qed

text \<open>Ids without a colon give unambiguous counter keys.\<close>

lemma sep_append_inject:
  assumes "p @ c # e = p' @ c # e'" "c \<notin> set p" "c \<notin> set p'"
  shows "p = p' \<and> e = e'"
  using assms
proof (induction p arbitrary: p')
  case Nil
  then show ?case by (cases p') auto
next
  case (Cons a p)
  then show ?case by (cases p') auto
qed

lemma colon_free_countKeysUnambiguous:
  assumes "\<forall>(p, r) \<in> set recs. CHR '':'' \<notin> set p"
  shows "countKeysUnambiguous recs"
  unfolding countKeysUnambiguous_def countKey_def
proof (intro ballI, clarify)
  fix p r p' r'
  assume "(p, r) \<in> set recs" "(p', r') \<in> set recs"
    and eq: "p @ ''::'' @ provider_event_id r = p' @ ''::'' @ provider_event_id r'"
  with assms have "CHR '':'' \<notin> set p" "CHR '':'' \<notin> set p'" by auto
  with eq sep_append_inject [of p "CHR '':''" "CHR '':'' # provider_event_id r" p'
      "CHR '':'' # provider_event_id r'"]
  show "p = p' \<and> provider_event_id r = provider_event_id r'" by simp
qed

subsection \<open>The final sort\<close>

text \<open>
  The comparator orders groups by the pair (not suspect, negated timestamp), taken
  lexicographically; with it the insertion sort is the library's stable \<open>sort_key\<close>.
\<close>

lemma compareGroups_le: "compareGroups a b \<le> 0 \<longleftrightarrow> groupRank a \<le> groupRank b"
  by (auto simp: compareGroups_def groupRank_def less_eq_prod_def)

lemma insert_by_compareGroups: "insert_by compareGroups x ys = insort_key groupRank x ys"
  by (induction ys) (simp_all add: compareGroups_le)

lemma array_sort_compareGroups: "array_sort compareGroups xs = sort_key groupRank xs"
  by (induction xs) (simp_all add: array_sort_def insert_by_compareGroups)

lemma groups_sort_key: "groups env recs = sort_key groupRank (finishedGroups env recs)"
  by (simp add: groups_def array_sort_compareGroups)

lemma groups_sorted: "sorted (map groupRank (groups env recs))"
  by (simp add: groups_sort_key)

lemma groups_stable:
  "filter (\<lambda>g. groupRank g = k) (groups env recs) =
   filter (\<lambda>g. groupRank g = k) (finishedGroups env recs)"
  by (simp add: groups_sort_key sort_key_stable)

subsection \<open>The latest timestamp of a group\<close>

lemma stamped_upsertGroup:
  "list_all (stamped env) gs \<Longrightarrow> stamped env fresh \<Longrightarrow>
   (\<And>g. stamped env g \<Longrightarrow> stamped env (upd g)) \<Longrightarrow>
   list_all (stamped env) (upsertGroup k fresh upd gs)"
  by (induction gs) auto

lemma stamped_addRecord:
  assumes "list_all (stamped env) gs"
  shows "list_all (stamped env) (addRecord env allr pr gs)"
proof -
  obtain pid r where pr: "pr = (pid, r)" by (cases pr)
  have upd: "stamped env (g\<lparr> latestTimestamp := max (latestTimestamp g) (recordActivity env r),
                  members := members g @ [buildMember env allr pid r] \<rparr>)"
    if "stamped env g" for g
  proof -
    let ?A = "(\<lambda>m. recordActivity env (m_record m)) ` set (members g)"
    from that have "finite ?A" "?A \<noteq> {}" by (simp_all add: stamped_def)
    then have "Max (insert (recordActivity env r) ?A) = max (recordActivity env r) (Max ?A)"
      by (rule Max_insert)
    with that show ?thesis by (simp add: stamped_def max.commute)
  qed
  show ?thesis
    unfolding addRecord_def pr prod.case
    by (rule stamped_upsertGroup [OF assms]) (simp_all add: stamped_def upd [unfolded stamped_def])
qed

lemma stamped_fold_addRecord:
  "list_all (stamped env) gs \<Longrightarrow> list_all (stamped env) (fold (addRecord env allr) rs gs)"
  by (induction rs arbitrary: gs) (simp_all add: stamped_addRecord)

lemma latestTimestamp_finishGroup [simp]: "latestTimestamp (finishGroup env g) = latestTimestamp g"
  by (simp add: finishGroup_def Let_def)

lemma stamped_finishGroup: "stamped env (finishGroup env g) = stamped env g"
  by (simp add: stamped_def) (metis length_0_conv length_array_sort members_finishGroup)

lemma stamped_groups: "g \<in> set (groups env recs) \<Longrightarrow> stamped env g"
  using stamped_fold_addRecord [of env "[]" recs recs]
  by (auto simp: set_groups workingGroups_def stamped_finishGroup list_all_iff)

subsection \<open>The canonical id of a group is that of one of its members\<close>

lemma seeded_upsertGroup:
  "list_all seeded gs \<Longrightarrow> seeded fresh \<Longrightarrow>
   (\<And>g. seeded g \<Longrightarrow> seeded (upd g)) \<Longrightarrow>
   list_all seeded (upsertGroup k fresh upd gs)"
  by (induction gs) auto

lemma seeded_addRecord:
  assumes "list_all seeded gs"
  shows "list_all seeded (addRecord env allr pr gs)"
proof -
  obtain pid r where pr: "pr = (pid, r)" by (cases pr)
  show ?thesis
    unfolding addRecord_def pr prod.case
    by (rule seeded_upsertGroup [OF assms]) (auto simp: seeded_def)
qed

lemma seeded_fold_addRecord:
  "list_all seeded gs \<Longrightarrow> list_all seeded (fold (addRecord env allr) rs gs)"
  by (induction rs arbitrary: gs) (simp_all add: seeded_addRecord)

lemma orbitEventId_finishGroup [simp]: "orbitEventId (finishGroup env g) = orbitEventId g"
  by (simp add: finishGroup_def Let_def)

lemma seeded_groups: "g \<in> set (groups env recs) \<Longrightarrow> seeded g"
  using seeded_fold_addRecord [of "[]" env recs recs]
  by (auto simp: set_groups workingGroups_def seeded_def list_all_iff)

lemma providerCount_finishGroup:
  "providerCount (finishGroup env g) = card (providerId ` set (members (finishGroup env g)))"
  by (simp add: finishGroup_def Let_def)

lemma members_nonempty_groups:
  assumes "g \<in> set (groups env recs)"
  shows "members g \<noteq> []"
  using seeded_groups [OF assms] by (auto simp: seeded_def)

text \<open>
  Provider ids without a colon and canonical ids that do not begin with \<^verbatim>\<open>unlinked:\<close>
  give unambiguous group keys.
\<close>

lemma colon_free_groupKeysUnambiguous:
  assumes nocolon: "\<forall>(p, r) \<in> set recs. CHR '':'' \<notin> set p"
    and noprefix: "\<forall>(p, r) \<in> set recs. \<forall>c. orbit_event_id r = Some c \<longrightarrow> take 9 c \<noteq> ''unlinked:''"
  shows "groupKeysUnambiguous recs"
  unfolding groupKeysUnambiguous_def
proof (intro ballI, clarify)
  fix p r p' r'
  assume a: "(p, r) \<in> set recs" and b: "(p', r') \<in> set recs"
    and eq: "groupKey p r = groupKey p' r'"
  from nocolon a b have nc: "CHR '':'' \<notin> set p" "CHR '':'' \<notin> set p'" by auto
  from noprefix a have np: "take 9 c \<noteq> ''unlinked:''" if "orbit_event_id r = Some c" for c
    using that by auto
  from noprefix b have np': "take 9 c \<noteq> ''unlinked:''" if "orbit_event_id r' = Some c" for c
    using that by auto
  show "orbit_event_id r = orbit_event_id r' \<and>
        (orbit_event_id r = None \<longrightarrow> p = p' \<and> provider_event_id r = provider_event_id r')"
  proof (cases "orbit_event_id r")
    case None
    show ?thesis
    proof (cases "orbit_event_id r'")
      case None
      with \<open>orbit_event_id r = None\<close> eq
      have "p @ CHR '':'' # provider_event_id r = p' @ CHR '':'' # provider_event_id r'"
        by (simp add: groupKey_def)
      from sep_append_inject [OF this nc] None \<open>orbit_event_id r = None\<close>
      show ?thesis by simp
    next
      case (Some c)
      with \<open>orbit_event_id r = None\<close> eq have "take 9 c = ''unlinked:''"
        by (auto simp: groupKey_def)
      with np' [OF Some] show ?thesis by simp
    qed
  next
    case (Some c)
    show ?thesis
    proof (cases "orbit_event_id r'")
      case None
      with Some eq have "take 9 c = ''unlinked:''"
        by (auto simp: groupKey_def)
      with np [OF Some] show ?thesis by simp
    next
      case (Some c')
      with \<open>orbit_event_id r = Some c\<close> eq show ?thesis by (simp add: groupKey_def)
    qed
  qed
qed

subsection \<open>Direction of a member\<close>



section \<open>Settling the provider fetches\<close>

lemma fold_markLoading:
  "fold markLoading ps prev p =
     (if p \<in> set ps then Some \<lparr> data = priorData prev p, loading = True, error = None \<rparr>
      else prev p)"
proof (induction ps arbitrary: prev)
  case Nil
  show ?case by simp
next
  case (Cons q ps)
  show ?case by (simp add: Cons.IH) (simp add: markLoading_def priorData_def)
qed

lemma priorData_fold_markLoading: "priorData (fold markLoading ps prev) p = priorData prev p"
  by (simp add: priorData_def fold_markLoading)

lemma providerFetchSettled_apply:
  "providerFetchSettled False q result m p =
     (if p = q then Some (settledPanel result (priorData m q)) else m p)"
  by (simp add: providerFetchSettled_def settledPanel_def split: sum.splits)

lemma settledPanel_idem:
  "settledPanel result (data (settledPanel result d)) = settledPanel result d"
  by (simp add: settledPanel_def split: sum.splits)

lemma fold_providerFetchSettled:
  "fold (\<lambda>pid. providerFetchSettled False pid (results pid)) order m p =
     (if p \<in> set order then Some (settledPanel (results p) (priorData m p)) else m p)"
proof (induction order arbitrary: m)
  case Nil
  show ?case by simp
next
  case (Cons q order)
  let ?f = "\<lambda>pid. providerFetchSettled False pid (results pid)"
  have step: "fold ?f (q # order) m p = fold ?f order (?f q m) p" by simp
  have pd: "priorData (?f q m) p =
      (if p = q then data (settledPanel (results q) (priorData m q)) else priorData m p)"
    by (simp add: priorData_def providerFetchSettled_apply)
  show ?case
    unfolding step Cons.IH pd
    by (simp add: providerFetchSettled_apply settledPanel_idem)
qed

lemma refreshProviderEvents_apply:
  assumes "set order = set ps"
  shows "refreshProviderEvents ps order results prev p =
     (if p \<in> set ps then Some (settledPanel (results p) (priorData prev p)) else prev p)"
  using assms
  by (simp add: refreshProviderEvents_def fold_providerFetchSettled priorData_fold_markLoading
       fold_markLoading)

section \<open>The buttons of a row\<close>





section \<open>Claims\<close>

text \<open>
  C1. Every fetched record appears in exactly one group of the computed output: the
  groups' keys are pairwise distinct, the members of all groups together are, counted
  with multiplicity, exactly the fetched \<^verbatim>\<open>{ providerId, record }\<close> pairs, and the key of a
  member's group is the record's canonical id when it has one (is not \<^verbatim>\<open>null\<close>) and
  otherwise the synthetic key \<^verbatim>\<open>unlinked:<providerId>:<provider_event_id>\<close>; so two unlinked
  records with the same pair lie in one group.
\<close>

theorem C1_record_in_exactly_one_group:
  "distinct (map key (groups env snapshot)) \<and>
   mset (concat (map (\<lambda>g. map (\<lambda>m. (providerId m, m_record m)) (members g))
                     (groups env snapshot))) = mset snapshot \<and>
   (\<forall>g \<in> set (groups env snapshot). \<forall>m \<in> set (members g).
      key g = (case orbit_event_id (m_record m) of
                 Some c \<Rightarrow> c
               | None \<Rightarrow> ''unlinked:'' @ providerId m @ '':'' @ provider_event_id (m_record m)))"
proof (intro conjI ballI)
  show "distinct (map key (groups env snapshot))"
    by (rule distinct_keys_groups)
  show "mset (concat (map (\<lambda>g. map (\<lambda>m. (providerId m, m_record m)) (members g))
                          (groups env snapshot))) = mset snapshot"
    using pairs_groups [of env snapshot] by (simp add: memberPairs_def [abs_def])
next
  fix g m
  assume "g \<in> set (groups env snapshot)" "m \<in> set (members g)"
  then show "key g = (case orbit_event_id (m_record m) of
                        Some c \<Rightarrow> c
                      | None \<Rightarrow> ''unlinked:'' @ providerId m @ '':'' @
                                provider_event_id (m_record m))"
    using wellKeyed_groups [of g env snapshot] by (simp add: wellKeyed_def groupKey_def)
qed

theorem C1_record_in_exactly_one_group_witness:
  "map key (groups ex_env ex_recs) =
     [''orbit-1'', ''unlinked:p-apple:evt-42'', ''unlinked:p-sky:solo'',
      ''unlinked:p-apple:lone''] \<and>
   distinct (map key (groups ex_env ex_recs)) \<and>
   mset (concat (map (\<lambda>g. map (\<lambda>m. (providerId m, m_record m)) (members g))
                     (groups ex_env ex_recs))) = mset ex_recs \<and>
   key (hd (groups ex_env ex_recs)) =
     (case orbit_event_id (m_record (hd (members (hd (groups ex_env ex_recs))))) of
        Some c \<Rightarrow> c
      | None \<Rightarrow> ''unlinked:'' @ providerId (hd (members (hd (groups ex_env ex_recs)))) @ '':'' @
                provider_event_id (m_record (hd (members (hd (groups ex_env ex_recs))))))"
proof -
  have keys: "map key (groups ex_env ex_recs) =
     [''orbit-1'', ''unlinked:p-apple:evt-42'', ''unlinked:p-sky:solo'',
      ''unlinked:p-apple:lone'']"
    using ex_groups_summary [THEN arg_cong, of "map fst"] by (simp add: comp_def)
  note c1 = C1_record_in_exactly_one_group [of ex_env ex_recs]
  from c1 have d: "distinct (map key (groups ex_env ex_recs))" by (rule conjunct1)
  from c1 have m: "mset (concat (map (\<lambda>g. map (\<lambda>m. (providerId m, m_record m)) (members g))
                     (groups ex_env ex_recs))) = mset ex_recs"
    by (rule conjunct1 [OF conjunct2])
  from c1 have "\<forall>g \<in> set (groups ex_env ex_recs). \<forall>m \<in> set (members g).
      key g = (case orbit_event_id (m_record m) of
                 Some c \<Rightarrow> c
               | None \<Rightarrow> ''unlinked:'' @ providerId m @ '':'' @ provider_event_id (m_record m))"
    by (rule conjunct2 [OF conjunct2])
  with ex_groups_hd have k: "key (hd (groups ex_env ex_recs)) =
     (case orbit_event_id (m_record (hd (members (hd (groups ex_env ex_recs))))) of
        Some c \<Rightarrow> c
      | None \<Rightarrow> ''unlinked:'' @ providerId (hd (members (hd (groups ex_env ex_recs)))) @ '':'' @
                provider_event_id (m_record (hd (members (hd (groups ex_env ex_recs))))))"
    by blast
  from keys d m k show ?thesis by (intro conjI)
qed

text \<open>
  What the code does with every snapshot: \<^verbatim>\<open>suspectCollision\<close> holds if and only if the
  group has more than one member or some member has \<^verbatim>\<open>duplicateCount\<close> above 1, and a
  member's \<^verbatim>\<open>duplicateCount\<close> is the number of fetched records with the member's counter
  key. Where the counter keys of the snapshot tell its pairs apart, that is the literal
  number of fetched records with the member's pair.
\<close>

lemma suspectCollision_duplicateCount:
  "\<forall>g \<in> set (groups env snapshot).
     (suspectCollision g \<longleftrightarrow>
        1 < length (members g) \<or> (\<exists>m \<in> set (members g). 1 < duplicateCount m)) \<and>
     (\<forall>m \<in> set (members g).
        duplicateCount m =
          length (filter (\<lambda>(p, r). p @ ''::'' @ provider_event_id r =
                                   providerId m @ ''::'' @ provider_event_id (m_record m))
                         snapshot) \<and>
        (countKeysUnambiguous snapshot \<longrightarrow>
           duplicateCount m =
             literalDuplicateCount snapshot (providerId m) (provider_event_id (m_record m))))"
proof (intro ballI conjI impI)
  fix g assume g: "g \<in> set (groups env snapshot)"
  then obtain w where "g = finishGroup env w" by (auto simp: set_groups)
  then show "suspectCollision g \<longleftrightarrow>
        1 < length (members g) \<or> (\<exists>m \<in> set (members g). 1 < duplicateCount m)"
    by (simp only: suspectCollision_finishGroup)
  fix m assume m: "m \<in> set (members g)"
  from member_of_groups [OF g m]
  have rec: "(providerId m, m_record m) \<in> set snapshot"
    and built: "m = buildMember env snapshot (providerId m) (m_record m)" by simp_all
  have dup: "duplicateCount m =
      length (filter (\<lambda>(p, r). countKey p r = countKey (providerId m) (m_record m)) snapshot)"
    by (subst built) (simp only: duplicateCount_buildMember pair_buildMember)
  then show "duplicateCount m =
          length (filter (\<lambda>(p, r). p @ ''::'' @ provider_event_id r =
                                   providerId m @ ''::'' @ provider_event_id (m_record m))
                         snapshot)"
    by (simp add: countKey_def)
  assume "countKeysUnambiguous snapshot"
  from literal_count_eq [OF this rec] dup
  show "duplicateCount m =
             literalDuplicateCount snapshot (providerId m) (provider_event_id (m_record m))"
    by simp
qed

text \<open>
  C2. For every group of the computed output, \<^verbatim>\<open>suspectCollision\<close> is true if and only if
  the group has more than one member or some member has \<^verbatim>\<open>duplicateCount\<close> above 1, where
  \<^verbatim>\<open>duplicateCount\<close> is the literal number of fetched records with the member's
  \<open>(providerId, provider_event_id)\<close> pair. The code counts per key
  \<^verbatim>\<open>`${providerId}::${provider_event_id}`\<close> and misses this where two pairs have one key:
  of the two records below each pair occurs once, yet the first record's
  \<^verbatim>\<open>duplicateCount\<close> is 2 and its one-member group is suspect.
\<close>

theorem C2_code_at_failing_input:
  "length (groups ex_env cx2_recs) = 2 \<and>
   length (members (groups ex_env cx2_recs ! 0)) = 1 \<and>
   providerId (hd (members (groups ex_env cx2_recs ! 0))) = ''caldav'' \<and>
   provider_event_id (m_record (hd (members (groups ex_env cx2_recs ! 0)))) = ''home::evt1'' \<and>
   literalDuplicateCount cx2_recs ''caldav'' ''home::evt1'' = 1 \<and>
   duplicateCount (hd (members (groups ex_env cx2_recs ! 0))) = 2 \<and>
   suspectCollision (groups ex_env cx2_recs ! 0)"
  by code_simp

text \<open>
  C3. In the computed group list every suspect group precedes every group that is not
  suspect, and among groups of equal \<^verbatim>\<open>suspectCollision\<close> the timestamps never increase.
  The sort is stable: the groups with a given \<^verbatim>\<open>suspectCollision\<close> and a given
  \<^verbatim>\<open>latestTimestamp\<close> appear in the order in which the working map holds them (its
  insertion order, \<open>finishedGroups\<close>), and the output is a permutation of that list.
\<close>

theorem C3_output_ordering:
  "(\<forall>i j. i < j \<and> j < length (groups env snapshot) \<longrightarrow>
      (suspectCollision (groups env snapshot ! j) \<longrightarrow>
         suspectCollision (groups env snapshot ! i)) \<and>
      (suspectCollision (groups env snapshot ! i) = suspectCollision (groups env snapshot ! j) \<longrightarrow>
         latestTimestamp (groups env snapshot ! j) \<le> latestTimestamp (groups env snapshot ! i))) \<and>
   (\<forall>s t. filter (\<lambda>g. suspectCollision g = s \<and> latestTimestamp g = t) (groups env snapshot) =
          filter (\<lambda>g. suspectCollision g = s \<and> latestTimestamp g = t)
                 (finishedGroups env snapshot)) \<and>
   mset (groups env snapshot) = mset (finishedGroups env snapshot)"
proof (intro conjI allI impI)
  fix i j assume ij: "i < j \<and> j < length (groups env snapshot)"
  then have "groupRank (groups env snapshot ! i) \<le> groupRank (groups env snapshot ! j)"
    using groups_sorted [of env snapshot] by (simp add: sorted_iff_nth_mono)
  then have le: "compareGroups (groups env snapshot ! i) (groups env snapshot ! j) \<le> 0"
    by (simp add: compareGroups_le)
  then show "suspectCollision (groups env snapshot ! i)"
    if "suspectCollision (groups env snapshot ! j)"
    using that by (auto simp: compareGroups_def split: if_splits)
  from le show "latestTimestamp (groups env snapshot ! j) \<le> latestTimestamp (groups env snapshot ! i)"
    if "suspectCollision (groups env snapshot ! i) = suspectCollision (groups env snapshot ! j)"
    using that by (simp add: compareGroups_def)
next
  fix s t
  have "(\<lambda>g. suspectCollision g = s \<and> latestTimestamp g = t) = (\<lambda>g. groupRank g = (\<not> s, - t))"
    by (auto simp: groupRank_def)
  then show "filter (\<lambda>g. suspectCollision g = s \<and> latestTimestamp g = t) (groups env snapshot) =
          filter (\<lambda>g. suspectCollision g = s \<and> latestTimestamp g = t)
                 (finishedGroups env snapshot)"
    by (simp only: groups_stable)
next
  show "mset (groups env snapshot) = mset (finishedGroups env snapshot)"
    by (rule mset_groups)
qed

text \<open>
  The sample snapshot: the map holds the groups in the order solo, orbit-1, evt-42,
  lone; the output puts the two suspect groups first, the later one ahead, and keeps
  solo before lone, which have the same timestamp.
\<close>

theorem C3_output_ordering_witness:
  "map key (finishedGroups ex_env ex_recs) =
     [''unlinked:p-sky:solo'', ''orbit-1'', ''unlinked:p-apple:evt-42'', ''unlinked:p-apple:lone''] \<and>
   map key (groups ex_env ex_recs) =
     [''orbit-1'', ''unlinked:p-apple:evt-42'', ''unlinked:p-sky:solo'', ''unlinked:p-apple:lone''] \<and>
   (0::nat) < 1 \<and> 1 < length (groups ex_env ex_recs) \<and>
   suspectCollision (groups ex_env ex_recs ! 1) \<and>
   suspectCollision (groups ex_env ex_recs ! 0) \<and>
   latestTimestamp (groups ex_env ex_recs ! 1) \<le> latestTimestamp (groups ex_env ex_recs ! 0) \<and>
   filter (\<lambda>g. suspectCollision g = False \<and> latestTimestamp g = 1714644000000)
          (groups ex_env ex_recs) =
   filter (\<lambda>g. suspectCollision g = False \<and> latestTimestamp g = 1714644000000)
          (finishedGroups ex_env ex_recs)"
proof -
  have k0: "map key (finishedGroups ex_env ex_recs) =
     [''unlinked:p-sky:solo'', ''orbit-1'', ''unlinked:p-apple:evt-42'', ''unlinked:p-apple:lone'']"
    by code_simp
  have k1: "map key (groups ex_env ex_recs) =
     [''orbit-1'', ''unlinked:p-apple:evt-42'', ''unlinked:p-sky:solo'', ''unlinked:p-apple:lone'']"
    by code_simp
  have ij: "(0::nat) < 1 \<and> 1 < length (groups ex_env ex_recs)" by code_simp
  have s1: "suspectCollision (groups ex_env ex_recs ! 1)" by code_simp
  note c3 = C3_output_ordering [of ex_env ex_recs]
  note ord = c3 [THEN conjunct1, THEN spec, THEN spec, THEN mp, OF ij]
  from ord s1 have s0: "suspectCollision (groups ex_env ex_recs ! 0)" by blast
  from ord s0 s1
  have le: "latestTimestamp (groups ex_env ex_recs ! 1) \<le> latestTimestamp (groups ex_env ex_recs ! 0)"
    by blast
  note st = c3 [THEN conjunct2, THEN conjunct1, THEN spec, THEN spec, of False 1714644000000]
  from k0 k1 ij s1 s0 le st show ?thesis by (intro conjI) blast+
qed









text \<open>
  C5 (as amended). A link or unlink call that sends its request sets \<^verbatim>\<open>actionState\<close> to
  its key. When the request settles, \<^verbatim>\<open>actionState\<close> is \<^verbatim>\<open>null\<close> again, whatever the
  outcome. On success \<^verbatim>\<open>refreshTick\<close> is incremented, which schedules the re-fetch, and
  the error is left as it was; on failure \<^verbatim>\<open>refreshTick\<close> is unchanged, so no re-fetch
  is scheduled, and the failure's message becomes the action error.
\<close>

theorem C5_settlement:
  "actionState (unlinkProviderEvent syncId pid peid st) = Some (Unlink, actionKeyOf pid peid) \<and>
   requests (unlinkProviderEvent syncId pid peid st) =
     requests st @ [UnlinkProviderEventCall syncId pid peid] \<and>
   (\<forall>ed. linkEditor st = Some ed \<and> linkTargetOrbit st \<noteq> [] \<and>
         Some (linkTargetOrbit st) \<noteq> currentOrbitId ed \<longrightarrow>
      actionState (submitLink syncId st) =
        Some (Link, actionKeyOf (ed_providerId ed) (ed_providerEventId ed)) \<and>
      requests (submitLink syncId st) =
        requests st @ [LinkProviderEventCall syncId (ed_providerId ed) (ed_providerEventId ed)
                         (linkTargetOrbit st)]) \<and>
   actionState (submitLink_settled outcome st) = None \<and>
   actionState (unlinkProviderEvent_settled captured pid peid outcome st) = None \<and>
   refreshTick (submitLink_settled (Inr u) st) = refreshTick st + 1 \<and>
   refreshTick (unlinkProviderEvent_settled captured pid peid (Inr u) st) = refreshTick st + 1 \<and>
   actionError (submitLink_settled (Inr u) st) = actionError st \<and>
   actionError (unlinkProviderEvent_settled captured pid peid (Inr u) st) = actionError st \<and>
   refreshTick (submitLink_settled (Inl err) st) = refreshTick st \<and>
   refreshTick (unlinkProviderEvent_settled captured pid peid (Inl err) st) = refreshTick st \<and>
   actionError (submitLink_settled (Inl err) st) =
     Some (case err of ErrorObject msg \<Rightarrow> msg | OtherValue \<Rightarrow> ''Failed to relink provider event'') \<and>
   actionError (unlinkProviderEvent_settled captured pid peid (Inl err) st) =
     Some (case err of ErrorObject msg \<Rightarrow> msg | OtherValue \<Rightarrow> ''Failed to unlink provider event'')"
  by (auto simp: submitLink_settled_def unlinkProviderEvent_settled_def unlinkProviderEvent_def
        submitLink_def cancelLink_def messageOf_def Let_def split: option.splits)

text \<open>
  Linking Apple's unlinked event to \<open>orbit-1\<close>: the call sends the request and sets the
  key; a success clears the key and raises \<^verbatim>\<open>refreshTick\<close>, a failure clears the key and
  stores the message.
\<close>

theorem C5_settlement_witness:
  "linkEditor ex_editing = Some (the (linkEditor ex_editing)) \<and>
   linkTargetOrbit ex_editing \<noteq> [] \<and>
   Some (linkTargetOrbit ex_editing) \<noteq> currentOrbitId (the (linkEditor ex_editing)) \<and>
   actionState (submitLink ''sync-1'' ex_editing) =
     Some (Link, actionKeyOf (ed_providerId (the (linkEditor ex_editing)))
                   (ed_providerEventId (the (linkEditor ex_editing)))) \<and>
   requests (submitLink ''sync-1'' ex_editing) =
     requests ex_editing @
       [LinkProviderEventCall ''sync-1'' (ed_providerId (the (linkEditor ex_editing)))
          (ed_providerEventId (the (linkEditor ex_editing))) (linkTargetOrbit ex_editing)] \<and>
   requests (submitLink ''sync-1'' ex_editing) =
     [LinkProviderEventCall ''sync-1'' ''p-apple'' ''evt-42'' ''orbit-1''] \<and>
   actionState (submitLink_settled (Inr ()) ex_saving) = None \<and>
   refreshTick (submitLink_settled (Inr ()) ex_saving) = refreshTick ex_saving + 1 \<and>
   actionState (submitLink_settled (Inl (ErrorObject ''409 Conflict'')) ex_saving) = None \<and>
   actionError (submitLink_settled (Inl (ErrorObject ''409 Conflict'')) ex_saving) =
     Some ''409 Conflict''"
proof -
  have hyp: "linkEditor ex_editing = Some (the (linkEditor ex_editing)) \<and>
   linkTargetOrbit ex_editing \<noteq> [] \<and>
   Some (linkTargetOrbit ex_editing) \<noteq> currentOrbitId (the (linkEditor ex_editing))"
    by code_simp
  have rq: "requests (submitLink ''sync-1'' ex_editing) =
     [LinkProviderEventCall ''sync-1'' ''p-apple'' ''evt-42'' ''orbit-1'']"
    by code_simp
  note rest = conjunct2 [OF conjunct2]
  note start = C5_settlement [of "''sync-1''" _ _ ex_editing, THEN rest, THEN conjunct1,
      THEN spec, THEN mp, OF hyp]
  note ok = C5_settlement [of _ _ _ ex_saving "Inr ()" _ "()", THEN rest, THEN conjunct2]
  note ko = C5_settlement [of _ _ _ ex_saving "Inl (ErrorObject ''409 Conflict'')" _ _
      "ErrorObject ''409 Conflict''", THEN rest, THEN conjunct2]
  from ok have ok1: "actionState (submitLink_settled (Inr ()) ex_saving) = None" by blast
  from ok have ok2: "refreshTick (submitLink_settled (Inr ()) ex_saving) = refreshTick ex_saving + 1"
    by blast
  from ko have ko1: "actionState (submitLink_settled (Inl (ErrorObject ''409 Conflict'')) ex_saving)
      = None" by blast
  from ko have ko2: "actionError (submitLink_settled (Inl (ErrorObject ''409 Conflict'')) ex_saving) =
     Some ''409 Conflict''" by simp
  from hyp start rq ok1 ok2 ko1 ko2 show ?thesis by (intro conjI) blast+
qed

text \<open>
  The claim as stated fails on a failed request: after an unlink and after a link
  request that the server rejects, \<^verbatim>\<open>refreshTick\<close> is what it was before the call.
\<close>

theorem C5_counterexample:
  "refreshTick ex_state = 0 \<and>
   refreshTick
     (unlinkProviderEvent_settled None ''p-apple'' ''a1'' (Inl (ErrorObject ''409 Conflict''))
        (unlinkProviderEvent ''sync-1'' ''p-apple'' ''a1'' ex_state)) = 0 \<and>
   requests ex_saving = [LinkProviderEventCall ''sync-1'' ''p-apple'' ''evt-42'' ''orbit-1''] \<and>
   refreshTick ex_saving = 0 \<and>
   refreshTick (submitLink_settled (Inl (ErrorObject ''409 Conflict'')) ex_saving) = 0"
  by code_simp

text \<open>
  C6 (as amended). A click on an enabled Link button opens the link editor with the
  canonical id that the row's record has at that moment, and presets a target other
  than that id; nothing refreshes the stored id afterwards. With the link editor open,
  submitting a target that is empty or equal to the canonical id stored in the editor
  changes only the action error, which becomes the validation message: no request is
  sent and \<^verbatim>\<open>actionState\<close> keeps its value (it stays \<^verbatim>\<open>null\<close> when it was). Starting a
  link when no option other than the record's canonical id exists likewise changes
  only the action error: no request is sent, \<^verbatim>\<open>actionState\<close> keeps its value and no
  editor is opened.
\<close>

theorem C6_link_rejected_locally:
  "(\<forall>ed. linkEditor st = Some ed \<and>
         (linkTargetOrbit st = [] \<or> Some (linkTargetOrbit st) = currentOrbitId ed) \<longrightarrow>
      submitLink syncId st = st\<lparr> actionError := Some ''Select a different Orbit event to link.'' \<rparr> \<and>
      requests (submitLink syncId st) = requests st \<and>
      actionState (submitLink syncId st) = actionState st) \<and>
   (filter (\<lambda>option. Some (fst option) \<noteq> cur) options0 = [] \<longrightarrow>
      startLink options0 pid peid cur st =
        st\<lparr> actionError := Some ''No other Orbit events available to link.'' \<rparr> \<and>
      requests (startLink options0 pid peid cur st) = requests st \<and>
      actionState (startLink options0 pid peid cur st) = actionState st \<and>
      linkEditor (startLink options0 pid peid cur st) = linkEditor st) \<and>
   (\<not> linkDisabled options0 m st \<longrightarrow>
      linkEditor (clickLink options0 m st) =
        Some \<lparr> ed_providerId = providerId m,
               ed_providerEventId = provider_event_id (m_record m),
               currentOrbitId = orbit_event_id (m_record m) \<rparr> \<and>
      Some (linkTargetOrbit (clickLink options0 m st)) \<noteq> orbit_event_id (m_record m) \<and>
      requests (clickLink options0 m st) = requests st \<and>
      actionState (clickLink options0 m st) = actionState st)"
proof (intro conjI)
  show "\<forall>ed. linkEditor st = Some ed \<and>
         (linkTargetOrbit st = [] \<or> Some (linkTargetOrbit st) = currentOrbitId ed) \<longrightarrow>
      submitLink syncId st = st\<lparr> actionError := Some ''Select a different Orbit event to link.'' \<rparr> \<and>
      requests (submitLink syncId st) = requests st \<and>
      actionState (submitLink syncId st) = actionState st"
    by (auto simp: submitLink_def)
  show "filter (\<lambda>option. Some (fst option) \<noteq> cur) options0 = [] \<longrightarrow>
      startLink options0 pid peid cur st =
        st\<lparr> actionError := Some ''No other Orbit events available to link.'' \<rparr> \<and>
      requests (startLink options0 pid peid cur st) = requests st \<and>
      actionState (startLink options0 pid peid cur st) = actionState st \<and>
      linkEditor (startLink options0 pid peid cur st) = linkEditor st"
    by (auto simp: startLink_def Let_def)
  show "\<not> linkDisabled options0 m st \<longrightarrow>
      linkEditor (clickLink options0 m st) =
        Some \<lparr> ed_providerId = providerId m,
               ed_providerEventId = provider_event_id (m_record m),
               currentOrbitId = orbit_event_id (m_record m) \<rparr> \<and>
      Some (linkTargetOrbit (clickLink options0 m st)) \<noteq> orbit_event_id (m_record m) \<and>
      requests (clickLink options0 m st) = requests st \<and>
      actionState (clickLink options0 m st) = actionState st"
  proof
    let ?opts = "filter (\<lambda>option. Some (fst option) \<noteq> orbit_event_id (m_record m)) options0"
    assume en: "\<not> linkDisabled options0 m st"
    then have ne: "?opts \<noteq> []" by (simp add: linkDisabled_def)
    then have "hd ?opts \<in> set ?opts" by (rule hd_in_set)
    then have other: "Some (fst (hd ?opts)) \<noteq> orbit_event_id (m_record m)" by simp
    from en ne other show "linkEditor (clickLink options0 m st) =
        Some \<lparr> ed_providerId = providerId m,
               ed_providerEventId = provider_event_id (m_record m),
               currentOrbitId = orbit_event_id (m_record m) \<rparr> \<and>
      Some (linkTargetOrbit (clickLink options0 m st)) \<noteq> orbit_event_id (m_record m) \<and>
      requests (clickLink options0 m st) = requests st \<and>
      actionState (clickLink options0 m st) = actionState st"
      by (simp add: clickLink_def startLink_def Let_def)
  qed
qed

text \<open>
  In the sample, \<open>orbit-1\<close> is the only canonical id: relinking Apple's record of it
  finds no other target, and submitting \<open>orbit-1\<close> as the target of a record that is
  already linked to it is refused. In the snapshot with two canonical ids, the Link
  button of Apple's row opens the editor with \<open>orbit-1\<close> stored.
\<close>

theorem C6_link_rejected_locally_witness:
  "linkEditor ex_same_target = Some (the (linkEditor ex_same_target)) \<and>
   Some (linkTargetOrbit ex_same_target) = currentOrbitId (the (linkEditor ex_same_target)) \<and>
   submitLink ''sync-1'' ex_same_target =
     ex_same_target\<lparr> actionError := Some ''Select a different Orbit event to link.'' \<rparr> \<and>
   requests (submitLink ''sync-1'' ex_same_target) = requests ex_same_target \<and>
   requests ex_same_target = [] \<and>
   actionState (submitLink ''sync-1'' ex_same_target) = actionState ex_same_target \<and>
   actionState ex_same_target = None \<and>
   orbitOptions (groups ex_env ex_recs) = [(''orbit-1'', ''Dentist'')] \<and>
   filter (\<lambda>option. Some (fst option) \<noteq> Some ''orbit-1'') (orbitOptions (groups ex_env ex_recs)) = [] \<and>
   startLink (orbitOptions (groups ex_env ex_recs)) ''p-apple'' ''a1'' (Some ''orbit-1'') ex_state =
     ex_state\<lparr> actionError := Some ''No other Orbit events available to link.'' \<rparr> \<and>
   requests (startLink (orbitOptions (groups ex_env ex_recs)) ''p-apple'' ''a1'' (Some ''orbit-1'')
               ex_state) = requests ex_state \<and>
   actionState (startLink (orbitOptions (groups ex_env ex_recs)) ''p-apple'' ''a1''
                  (Some ''orbit-1'') ex_state) = actionState ex_state \<and>
   \<not> linkDisabled (orbitOptions (groups ex_env cx6_before)) cx6_row ex_state \<and>
   orbit_event_id (m_record cx6_row) = Some ''orbit-1'' \<and>
   linkEditor cx6_editing =
     Some \<lparr> ed_providerId = providerId cx6_row,
            ed_providerEventId = provider_event_id (m_record cx6_row),
            currentOrbitId = orbit_event_id (m_record cx6_row) \<rparr> \<and>
   Some (linkTargetOrbit cx6_editing) \<noteq> orbit_event_id (m_record cx6_row) \<and>
   requests cx6_editing = requests ex_state"
proof -
  have ed: "linkEditor ex_same_target = Some (the (linkEditor ex_same_target))" by code_simp
  have same: "Some (linkTargetOrbit ex_same_target) =
      currentOrbitId (the (linkEditor ex_same_target))" by code_simp
  have r0: "requests ex_same_target = []" by code_simp
  have a0: "actionState ex_same_target = None" by code_simp
  have opts: "orbitOptions (groups ex_env ex_recs) = [(''orbit-1'', ''Dentist'')]" by code_simp
  have none: "filter (\<lambda>option. Some (fst option) \<noteq> Some ''orbit-1'')
                (orbitOptions (groups ex_env ex_recs)) = []"
    by code_simp
  have en: "\<not> linkDisabled (orbitOptions (groups ex_env cx6_before)) cx6_row ex_state"
    by code_simp
  have cur: "orbit_event_id (m_record cx6_row) = Some ''orbit-1''" by code_simp
  from ed same have hyp: "linkEditor ex_same_target = Some (the (linkEditor ex_same_target)) \<and>
      (linkTargetOrbit ex_same_target = [] \<or>
       Some (linkTargetOrbit ex_same_target) = currentOrbitId (the (linkEditor ex_same_target)))"
    by blast
  note sub = C6_link_rejected_locally [of ex_same_target "''sync-1''", THEN conjunct1,
      THEN spec, THEN mp, OF hyp]
  note start = C6_link_rejected_locally [of ex_state "''sync-1''" "Some ''orbit-1''"
      "orbitOptions (groups ex_env ex_recs)" "''p-apple''" "''a1''", THEN conjunct2,
      THEN conjunct1, THEN mp, OF none]
  note click = C6_link_rejected_locally [of ex_state "''sync-1''" _
      "orbitOptions (groups ex_env cx6_before)" _ _ cx6_row, THEN conjunct2, THEN conjunct2,
      THEN mp, OF en, folded cx6_editing_def]
  from click have c1: "linkEditor cx6_editing =
     Some \<lparr> ed_providerId = providerId cx6_row,
            ed_providerEventId = provider_event_id (m_record cx6_row),
            currentOrbitId = orbit_event_id (m_record cx6_row) \<rparr>" by (rule conjunct1)
  from click have c2: "Some (linkTargetOrbit cx6_editing) \<noteq> orbit_event_id (m_record cx6_row)"
    by blast
  from click have c3: "requests cx6_editing = requests ex_state" by blast
  from ed same sub r0 a0 opts none start en cur c1 c2 c3 show ?thesis
    by (intro conjI) blast+
qed

text \<open>
  The claim as stated fails when the record changes while the editor is open. The
  editor is opened on Apple's record \<open>a1\<close>, then linked to \<open>orbit-1\<close>, with \<open>orbit-2\<close>
  preset as the target. A refresh replaces the snapshot and leaves the editor as it is;
  in the new snapshot \<open>a1\<close> is linked to \<open>orbit-2\<close>. Save then sends the request to link
  \<open>a1\<close> to \<open>orbit-2\<close>, its current canonical id, and sets the action key.
\<close>

theorem C6_counterexample:
  "providerId cx6_row = ''p-apple'' \<and>
   provider_event_id (m_record cx6_row) = ''a1'' \<and>
   recordCanonicalId cx6_before ''p-apple'' ''a1'' = Some ''orbit-1'' \<and>
   currentOrbitId (the (linkEditor cx6_editing)) = Some ''orbit-1'' \<and>
   linkTargetOrbit cx6_editing = ''orbit-2'' \<and>
   recordCanonicalId cx6_after ''p-apple'' ''a1'' = Some ''orbit-2'' \<and>
   requests (clickSave ''sync-1'' cx6_editing) =
     [LinkProviderEventCall ''sync-1'' ''p-apple'' ''a1'' ''orbit-2''] \<and>
   actionState (clickSave ''sync-1'' cx6_editing) = Some (Link, ''p-apple-a1'')"
  by code_simp

text \<open>
  C7 (as amended). Once every fetch of a refresh has settled, in whatever order, the
  panel of each provider depends on that provider's outcome alone. A provider whose
  fetch failed keeps the records its panel held before the refresh (none if it held
  none) and gets the failure's message as its error; a provider whose fetch succeeded
  holds the fetched records and no error. The snapshot \<^verbatim>\<open>allRecords\<close> is made of exactly
  these records, the per-provider errors are the non-empty failure messages, and the
  group computation runs over that snapshot and places each of its records.
\<close>

theorem C7_failed_fetch_isolated:
  "set settleOrder = set providerIds \<longrightarrow>
     (\<forall>p \<in> set providerIds.
        (\<forall>err. results p = Inl err \<longrightarrow>
           refreshProviderEvents providerIds settleOrder results prev p =
             Some \<lparr> data = priorData prev p, loading = False,
                    error = Some (messageOf ''Failed to load provider events'' err) \<rparr>) \<and>
        (\<forall>events. results p = Inr events \<longrightarrow>
           refreshProviderEvents providerIds settleOrder results prev p =
             Some \<lparr> data = events, loading = False, error = None \<rparr>)) \<and>
     allRecords providerIds (refreshProviderEvents providerIds settleOrder results prev) =
       concat (map (\<lambda>p. map (\<lambda>r. (p, r))
                           (case results p of Inr events \<Rightarrow> events | Inl err \<Rightarrow> priorData prev p))
                   providerIds) \<and>
     providerErrors providerIds (refreshProviderEvents providerIds settleOrder results prev) =
       concat (map (\<lambda>p. case results p of
                           Inr events \<Rightarrow> []
                         | Inl err \<Rightarrow>
                             if messageOf ''Failed to load provider events'' err = [] then []
                             else [messageOf ''Failed to load provider events'' err])
                   providerIds) \<and>
     mset (concat (map memberPairs
             (groups env (allRecords providerIds
                (refreshProviderEvents providerIds settleOrder results prev))))) =
       mset (allRecords providerIds (refreshProviderEvents providerIds settleOrder results prev))"
proof (intro impI conjI ballI allI)
  assume o: "set settleOrder = set providerIds"
  note ap = refreshProviderEvents_apply [OF o, of results prev]
  {
    fix p err assume "p \<in> set providerIds" "results p = Inl err"
    then show "refreshProviderEvents providerIds settleOrder results prev p =
             Some \<lparr> data = priorData prev p, loading = False,
                    error = Some (messageOf ''Failed to load provider events'' err) \<rparr>"
      by (simp add: ap settledPanel_def)
  }
  {
    fix p events assume "p \<in> set providerIds" "results p = Inr events"
    then show "refreshProviderEvents providerIds settleOrder results prev p =
             Some \<lparr> data = events, loading = False, error = None \<rparr>"
      by (simp add: ap settledPanel_def)
  }
  have "map (\<lambda>pid. case refreshProviderEvents providerIds settleOrder results prev pid of
                           None \<Rightarrow> []
                         | Some panel \<Rightarrow> map (\<lambda>r. (pid, r)) (data panel)) providerIds =
        map (\<lambda>p. map (\<lambda>r. (p, r))
                           (case results p of Inr events \<Rightarrow> events | Inl err \<Rightarrow> priorData prev p))
                   providerIds"
    by (rule map_cong [OF refl]) (simp add: ap settledPanel_def split: sum.splits)
  then show "allRecords providerIds (refreshProviderEvents providerIds settleOrder results prev) =
       concat (map (\<lambda>p. map (\<lambda>r. (p, r))
                           (case results p of Inr events \<Rightarrow> events | Inl err \<Rightarrow> priorData prev p))
                   providerIds)"
    unfolding allRecords_def by (rule arg_cong)
  have sel: "map the (filter truthy (map f ps)) =
             concat (map (\<lambda>p. if truthy (f p) then [the (f p)] else []) ps)"
    for f and ps :: "string list"
    by (induction ps) simp_all
  have "map (\<lambda>p. if truthy (Option.bind (refreshProviderEvents providerIds settleOrder results prev p) error)
                  then [the (Option.bind (refreshProviderEvents providerIds settleOrder results prev p) error)]
                  else []) providerIds =
        map (\<lambda>p. case results p of
                           Inr events \<Rightarrow> []
                         | Inl err \<Rightarrow>
                             if messageOf ''Failed to load provider events'' err = [] then []
                             else [messageOf ''Failed to load provider events'' err])
                   providerIds"
    by (rule map_cong [OF refl]) (simp add: ap settledPanel_def truthy_def split: sum.splits)
  then show "providerErrors providerIds (refreshProviderEvents providerIds settleOrder results prev) =
       concat (map (\<lambda>p. case results p of
                           Inr events \<Rightarrow> []
                         | Inl err \<Rightarrow>
                             if messageOf ''Failed to load provider events'' err = [] then []
                             else [messageOf ''Failed to load provider events'' err])
                   providerIds)"
    unfolding providerErrors_def sel by (rule arg_cong)
  show "mset (concat (map memberPairs
             (groups env (allRecords providerIds
                (refreshProviderEvents providerIds settleOrder results prev))))) =
       mset (allRecords providerIds (refreshProviderEvents providerIds settleOrder results prev))"
    by (rule pairs_groups)
qed

text \<open>
  The first refresh after the modal opens (no panel holds data): Skylight settles
  first, Apple fails. Apple contributes nothing and its error is listed.
\<close>

theorem C7_failed_fetch_isolated_witness:
  "set [''p-sky'', ''p-apple''] = set [''p-apple'', ''p-sky''] \<and>
   ''p-apple'' \<in> set [''p-apple'', ''p-sky''] \<and>
   ex_results ''p-apple'' = Inl (ErrorObject ''504 Gateway Timeout'') \<and>
   refreshProviderEvents [''p-apple'', ''p-sky''] [''p-sky'', ''p-apple''] ex_results Map.empty
       ''p-apple'' =
     Some \<lparr> data = priorData Map.empty ''p-apple'', loading = False,
            error = Some (messageOf ''Failed to load provider events''
                            (ErrorObject ''504 Gateway Timeout'')) \<rparr> \<and>
   priorData Map.empty ''p-apple'' = [] \<and>
   ''p-sky'' \<in> set [''p-apple'', ''p-sky''] \<and>
   ex_results ''p-sky'' =
     Inr [ex_rec ''p-sky'' (Some ''orbit-1'') ''s1'' (Some ''2024-05-01T10:00:00Z'') None] \<and>
   refreshProviderEvents [''p-apple'', ''p-sky''] [''p-sky'', ''p-apple''] ex_results Map.empty
       ''p-sky'' =
     Some \<lparr> data = [ex_rec ''p-sky'' (Some ''orbit-1'') ''s1'' (Some ''2024-05-01T10:00:00Z'') None],
            loading = False, error = None \<rparr> \<and>
   allRecords [''p-apple'', ''p-sky'']
     (refreshProviderEvents [''p-apple'', ''p-sky''] [''p-sky'', ''p-apple''] ex_results Map.empty) =
     [(''p-sky'', ex_rec ''p-sky'' (Some ''orbit-1'') ''s1'' (Some ''2024-05-01T10:00:00Z'') None)] \<and>
   providerErrors [''p-apple'', ''p-sky'']
     (refreshProviderEvents [''p-apple'', ''p-sky''] [''p-sky'', ''p-apple''] ex_results Map.empty) =
     [''504 Gateway Timeout'']"
proof -
  have o: "set [''p-sky'', ''p-apple''] = set [''p-apple'', ''p-sky'']" by code_simp
  have a: "''p-apple'' \<in> set [''p-apple'', ''p-sky'']" by simp
  have s: "''p-sky'' \<in> set [''p-apple'', ''p-sky'']" by simp
  have ra: "ex_results ''p-apple'' = Inl (ErrorObject ''504 Gateway Timeout'')"
    by (simp add: ex_results_def)
  have rs: "ex_results ''p-sky'' =
     Inr [ex_rec ''p-sky'' (Some ''orbit-1'') ''s1'' (Some ''2024-05-01T10:00:00Z'') None]"
    by (simp add: ex_results_def)
  have pd: "priorData Map.empty ''p-apple'' = []" by (simp add: priorData_def)
  note c7 = C7_failed_fetch_isolated [of "[''p-sky'', ''p-apple'']" "[''p-apple'', ''p-sky'']"
      ex_results Map.empty ex_env, THEN mp, OF o]
  note pa = c7 [THEN conjunct1, THEN bspec, OF a, THEN conjunct1, THEN spec, THEN mp, OF ra]
  note ps = c7 [THEN conjunct1, THEN bspec, OF s, THEN conjunct2, THEN spec, THEN mp, OF rs]
  have recs: "allRecords [''p-apple'', ''p-sky'']
     (refreshProviderEvents [''p-apple'', ''p-sky''] [''p-sky'', ''p-apple''] ex_results Map.empty) =
     [(''p-sky'', ex_rec ''p-sky'' (Some ''orbit-1'') ''s1'' (Some ''2024-05-01T10:00:00Z'') None)]"
    unfolding c7 [THEN conjunct2, THEN conjunct1] by (simp add: ex_results_def priorData_def)
  have errs: "providerErrors [''p-apple'', ''p-sky'']
     (refreshProviderEvents [''p-apple'', ''p-sky''] [''p-sky'', ''p-apple''] ex_results Map.empty) =
     [''504 Gateway Timeout'']"
    unfolding c7 [THEN conjunct2, THEN conjunct2, THEN conjunct1]
    by (simp add: ex_results_def messageOf_def)
  from o a ra pa pd s rs ps recs errs show ?thesis by (intro conjI)
qed

text \<open>
  The claim as stated fails on a later refresh: Apple's fetch fails, and the record
  that Apple's panel held from the refresh before stays in the snapshot.
\<close>

theorem C7_counterexample:
  "ex_results ''p-apple'' = Inl (ErrorObject ''504 Gateway Timeout'') \<and>
   allRecords [''p-apple'', ''p-sky'']
     (refreshProviderEvents [''p-apple'', ''p-sky''] [''p-sky'', ''p-apple''] ex_results cx7_prev) =
     [(''p-apple'', ex_rec ''p-apple'' (Some ''orbit-1'') ''a1'' None None),
      (''p-sky'', ex_rec ''p-sky'' (Some ''orbit-1'') ''s1'' (Some ''2024-05-01T10:00:00Z'') None)]"
  by code_simp

text \<open>
  C8 (as amended). Every group of the computed output has a member, and its
  \<^verbatim>\<open>latestTimestamp\<close> is the maximum, over its members, of \<^verbatim>\<open>parseTimestamp\<close> of the
  record's \<^verbatim>\<open>last_updated\<close>, of its \<^verbatim>\<open>start\<close> and of the matched flow's \<^verbatim>\<open>occurred_at\<close>.
  \<^verbatim>\<open>parseTimestamp\<close> is total; a missing, empty or unparseable timestamp counts as 0, the
  Unix epoch, and a parseable one as the number \<^verbatim>\<open>Date.parse\<close> returns.
\<close>

theorem C8_latestTimestamp_is_max:
  "(\<forall>g \<in> set (groups env snapshot).
      members g \<noteq> [] \<and>
      latestTimestamp g =
        Max ((\<lambda>m. max (parseTimestamp env (last_updated (m_record m)))
                    (max (parseTimestamp env (start (m_record m)))
                         (parseTimestamp env (Option.bind (flowFor env (m_record m)) occurred_at))))
             ` set (members g))) \<and>
   parseTimestamp env None = 0 \<and>
   parseTimestamp env (Some []) = 0 \<and>
   (\<forall>s. Date_parse env s = None \<longrightarrow> parseTimestamp env (Some s) = 0) \<and>
   (\<forall>s t. s \<noteq> [] \<and> Date_parse env s = Some t \<longrightarrow> parseTimestamp env (Some s) = t)"
proof (intro conjI ballI allI impI)
  fix g assume "g \<in> set (groups env snapshot)"
  then have "stamped env g" by (rule stamped_groups)
  then show "members g \<noteq> []" and "latestTimestamp g =
        Max ((\<lambda>m. max (parseTimestamp env (last_updated (m_record m)))
                    (max (parseTimestamp env (start (m_record m)))
                         (parseTimestamp env (Option.bind (flowFor env (m_record m)) occurred_at))))
             ` set (members g))"
    by (simp_all add: stamped_def recordActivity_def)
qed (simp_all add: parseTimestamp_def)

theorem C8_latestTimestamp_is_max_witness:
  "groups ex_env ex_recs ! 0 \<in> set (groups ex_env ex_recs) \<and>
   members (groups ex_env ex_recs ! 0) \<noteq> [] \<and>
   latestTimestamp (groups ex_env ex_recs ! 0) =
     Max ((\<lambda>m. max (parseTimestamp ex_env (last_updated (m_record m)))
                 (max (parseTimestamp ex_env (start (m_record m)))
                      (parseTimestamp ex_env (Option.bind (flowFor ex_env (m_record m)) occurred_at))))
          ` set (members (groups ex_env ex_recs ! 0))) \<and>
   latestTimestamp (groups ex_env ex_recs ! 0) = 1714644000000 \<and>
   Date_parse ex_env ''next tuesday'' = None \<and>
   parseTimestamp ex_env (Some ''next tuesday'') = 0 \<and>
   ''2024-05-01T10:00:00Z'' \<noteq> [] \<and>
   Date_parse ex_env ''2024-05-01T10:00:00Z'' = Some 1714557600000 \<and>
   parseTimestamp ex_env (Some ''2024-05-01T10:00:00Z'') = 1714557600000"
proof -
  have g: "groups ex_env ex_recs ! 0 \<in> set (groups ex_env ex_recs)" by code_simp
  have v: "latestTimestamp (groups ex_env ex_recs ! 0) = 1714644000000" by code_simp
  have n: "Date_parse ex_env ''next tuesday'' = None" by code_simp
  have p: "''2024-05-01T10:00:00Z'' \<noteq> [] \<and>
           Date_parse ex_env ''2024-05-01T10:00:00Z'' = Some 1714557600000" by code_simp
  note c8 = C8_latestTimestamp_is_max [of ex_env ex_recs]
  note c8g = c8 [THEN conjunct1, THEN bspec, OF g]
  note c8n = c8 [THEN conjunct2, THEN conjunct2, THEN conjunct2, THEN conjunct1,
                 THEN spec, THEN mp, OF n]
  note c8p = c8 [THEN conjunct2, THEN conjunct2, THEN conjunct2, THEN conjunct2,
                 THEN spec, THEN spec, THEN mp, OF p]
  from g c8g v n c8n p c8p show ?thesis by (intro conjI) blast+
qed

text \<open>
  The claim as stated fails for dates before 1970, which parse to negative numbers:
  the missing \<^verbatim>\<open>occurred_at\<close> of the birthday entry counts as 0 and wins the maximum,
  where the earliest possible value would leave the parsed date.
\<close>

theorem C8_counterexample:
  "map latestTimestamp (groups ex_env cx8_recs) = [0] \<and>
   map (specLatestActivityAt ex_env) (groups ex_env cx8_recs) = [Some (- 315619200000)]"
  by code_simp



text \<open>
  What the code does with every snapshot: every group has a member; its
  \<^verbatim>\<open>providerCount\<close> is the number of distinct provider ids among its members, hence between
  1 and the number of members; if its canonical id is not \<^verbatim>\<open>null\<close>, its key is that id.
  Where the group keys of the snapshot are unambiguous, the group is homogeneous: with
  a canonical id, every member's record carries that id; without one, all members
  share one \<open>(providerId, provider_event_id)\<close> pair and none carries a canonical id.
\<close>

lemma group_homogeneous:
  "\<forall>g \<in> set (groups env snapshot).
     members g \<noteq> [] \<and>
     providerCount g = card (providerId ` set (members g)) \<and>
     1 \<le> providerCount g \<and> providerCount g \<le> length (members g) \<and>
     (\<forall>c. orbitEventId g = Some c \<longrightarrow> key g = c) \<and>
     (groupKeysUnambiguous snapshot \<longrightarrow>
        (\<forall>c. orbitEventId g = Some c \<longrightarrow>
           (\<forall>m \<in> set (members g). orbit_event_id (m_record m) = Some c)) \<and>
        (orbitEventId g = None \<longrightarrow>
           (\<exists>p e. \<forall>m \<in> set (members g).
              providerId m = p \<and> provider_event_id (m_record m) = e \<and>
              orbit_event_id (m_record m) = None)))"
proof
  fix g assume g: "g \<in> set (groups env snapshot)"
  have ne: "members g \<noteq> []" by (rule members_nonempty_groups [OF g])
  from g obtain w where "g = finishGroup env w" by (auto simp: set_groups)
  then have pc: "providerCount g = card (providerId ` set (members g))"
    by (simp only: providerCount_finishGroup)
  from ne have "providerId ` set (members g) \<noteq> {}" by simp
  then have lo: "1 \<le> providerCount g"
    unfolding pc by (simp add: Suc_le_eq card_gt_0_iff)
  have hi: "providerCount g \<le> length (members g)"
    unfolding pc by (metis card_length list.set_map length_map)
  from seeded_groups [OF g] obtain m0 where m0: "m0 \<in> set (members g)"
    and seed: "orbit_event_id (m_record m0) = orbitEventId g"
    by (auto simp: seeded_def)
  have wk: "groupKey (providerId m) (m_record m) = key g" if "m \<in> set (members g)" for m
    using wellKeyed_groups [OF g] that by (simp add: wellKeyed_def)
  have keyc: "key g = c" if "orbitEventId g = Some c" for c
    using wk [OF m0] seed that by (simp add: groupKey_def)
  have hom: "orbit_event_id (m_record m) = orbitEventId g \<and>
             (orbitEventId g = None \<longrightarrow> providerId m = providerId m0 \<and>
                provider_event_id (m_record m) = provider_event_id (m_record m0))"
    if u: "groupKeysUnambiguous snapshot" and m: "m \<in> set (members g)" for m
  proof -
    have a: "(providerId m0, m_record m0) \<in> set snapshot"
      using member_of_groups [OF g m0] by simp
    have b: "(providerId m, m_record m) \<in> set snapshot"
      using member_of_groups [OF g m] by simp
    have "groupKey (providerId m0) (m_record m0) = groupKey (providerId m) (m_record m)"
      by (simp add: wk [OF m0] wk [OF m])
    with u a b seed show ?thesis
      unfolding groupKeysUnambiguous_def by fastforce
  qed
  show "members g \<noteq> [] \<and>
     providerCount g = card (providerId ` set (members g)) \<and>
     1 \<le> providerCount g \<and> providerCount g \<le> length (members g) \<and>
     (\<forall>c. orbitEventId g = Some c \<longrightarrow> key g = c) \<and>
     (groupKeysUnambiguous snapshot \<longrightarrow>
        (\<forall>c. orbitEventId g = Some c \<longrightarrow>
           (\<forall>m \<in> set (members g). orbit_event_id (m_record m) = Some c)) \<and>
        (orbitEventId g = None \<longrightarrow>
           (\<exists>p e. \<forall>m \<in> set (members g).
              providerId m = p \<and> provider_event_id (m_record m) = e \<and>
              orbit_event_id (m_record m) = None)))"
  proof (intro conjI impI allI ballI)
    show "members g \<noteq> []" by (rule ne)
    show "providerCount g = card (providerId ` set (members g))" by (rule pc)
    show "1 \<le> providerCount g" by (rule lo)
    show "providerCount g \<le> length (members g)" by (rule hi)
    show "key g = c" if "orbitEventId g = Some c" for c by (rule keyc [OF that])
    show "orbit_event_id (m_record m) = Some c"
      if "groupKeysUnambiguous snapshot" "orbitEventId g = Some c" "m \<in> set (members g)" for c m
      using hom [OF that(1) that(3)] that(2) by simp
    show "\<exists>p e. \<forall>m \<in> set (members g).
              providerId m = p \<and> provider_event_id (m_record m) = e \<and>
              orbit_event_id (m_record m) = None"
      if "groupKeysUnambiguous snapshot" "orbitEventId g = None"
      using hom [OF that(1)] that(2)
      by (intro exI [of _ "providerId m0"] exI [of _ "provider_event_id (m_record m0)"]) simp
  qed
qed

text \<open>
  C10. Every group of the computed output is non-empty and homogeneous: with a
  canonical id, every member carries it and the key equals it; without one, all members
  share one \<open>(providerId, provider_event_id)\<close> pair and none carries a canonical id; and
  \<^verbatim>\<open>providerCount\<close> is the number of distinct provider ids among the members. The code
  joins the pair into the key \<^verbatim>\<open>`unlinked:${providerId}:${provider_event_id}`\<close> and misses
  this where two pairs have one key: the group below has no canonical id and two
  members with different pairs.
\<close>

theorem C10_code_at_failing_input:
  "length (groups ex_env cx10_recs) = 1 \<and>
   key (hd (groups ex_env cx10_recs)) = ''unlinked:caldav:home:evt1'' \<and>
   orbitEventId (hd (groups ex_env cx10_recs)) = None \<and>
   map providerId (members (hd (groups ex_env cx10_recs))) = [''caldav'', ''caldav:home''] \<and>
   map (provider_event_id \<circ> m_record) (members (hd (groups ex_env cx10_recs))) =
     [''home:evt1'', ''evt1'']"
  by code_simp

end
